theory Spec2Isabelle
  imports Main "HOL-Library.AList" "HOL-Library.Sublist"
begin

section \<open>JavaScript values read from the configuration\<close>

text \<open>
  The values that \<^verbatim>\<open>test/mocks/databasemock.js\<close> reads out of \<^verbatim>\<open>config.json\<close>
  through nconf are JSON values; \<open>Undefined\<close> is what a missing key or property yields.
  Numbers are restricted to integers (ports, database indices, flags); a number that a
  double does not hold exactly, or of magnitude \<^verbatim>\<open>1e21\<close> or more, is held as the
  integer that the digits JavaScript prints for it denote. Objects keep their members in
  an association list.
\<close>

datatype jsval =
    Undefined
  | Null
  | Bool bool
  | Num int
  | Str string
  | Arr "jsval list"
  | Obj "(string \<times> jsval) list"

datatype call =
    DbInit
  | DbCreateIndices
  | DbEmptydb
  | DbInitSessionStore
  | DbSortedSetAdd string
  | MetaConfigsSetOnEmpty
  | MetaConfigsInit
  | GroupsCacheReset
  | PostsCacheReset
  | CacheReset
  | UploadsClearCache
  | PrivilegesGlobalGive string
  | MetaThemesSet
  | FsRm string
  | Mkdirp string
  | MetaDependenciesCheck
  | SocketsInit
  | NotificationsStartJobs
  | UserStartJobs
  | WebserverListen

text \<open>
  A call site either awaits the promise the collaborator returns (\<^verbatim>\<open>await f()\<close>) or
  is a plain statement (\<^verbatim>\<open>f();\<close>).
\<close>

datatype event = Await call | Plain call

text \<open>
  Everything the module can throw: the error of \<^verbatim>\<open>fs.readFileSync\<close> rethrown at line 34,
  the parse error of \<^verbatim>\<open>nconf.file\<close>, a \<^verbatim>\<open>TypeError\<close> of the runtime (the argument names
  what was being evaluated), an \<^verbatim>\<open>Error\<close> with its message, the failure of
  \<^verbatim>\<open>require\<close>, an error of the file system, and the rejection of a collaborator's call.
\<close>

datatype error =
    FsReadError
  | ConfigParseError
  | TypeError string
  | Error string
  | ModuleNotFound string
  | FsError string
  | Rejected event

subsection \<open>Truthiness, strict equality, property reads, string conversion\<close>

fun truthy :: "jsval \<Rightarrow> bool" where
  "truthy Undefined = False"
| "truthy Null = False"
| "truthy (Bool b) = b"
| "truthy (Num n) = (n \<noteq> 0)"
| "truthy (Str s) = (s \<noteq> [])"
| "truthy (Arr _) = True"
| "truthy (Obj _) = True"

text \<open>
  \<^verbatim>\<open>a === b\<close>. Primitive values compare by value. Objects and arrays compare by
  reference; every comparison of the module has either a literal on one side or two values
  read from different members of the parsed configuration, so two objects are never the
  same reference.
\<close>

fun strict_eq :: "jsval \<Rightarrow> jsval \<Rightarrow> bool" where
  "strict_eq (Arr _) _ = False"
| "strict_eq (Obj _) _ = False"
| "strict_eq _ (Arr _) = False"
| "strict_eq _ (Obj _) = False"
| "strict_eq a b = (a = b)"

definition js_or :: "jsval \<Rightarrow> jsval \<Rightarrow> jsval" where
  "js_or a b = (if truthy a then a else b)"

text \<open>
  \<^verbatim>\<open>v.name\<close> for the member names the module reads (\<^verbatim>\<open>database\<close>, \<^verbatim>\<open>host\<close>,
  \<^verbatim>\<open>port\<close>), none of which is inherited from a prototype: reading a property of
  \<^verbatim>\<open>undefined\<close> or \<^verbatim>\<open>null\<close> throws, an object yields its member or \<^verbatim>\<open>undefined\<close>,
  every other value yields \<^verbatim>\<open>undefined\<close>.
\<close>

fun get_prop :: "jsval \<Rightarrow> string \<Rightarrow> error + jsval" where
  "get_prop Undefined k = Inl (TypeError (''Cannot read properties of undefined (reading '' @ k @ '')''))"
| "get_prop Null k = Inl (TypeError (''Cannot read properties of null (reading '' @ k @ '')''))"
| "get_prop (Obj kvs) k = Inr (case map_of kvs k of None \<Rightarrow> Undefined | Some v \<Rightarrow> v)"
| "get_prop _ k = Inr Undefined"

definition digit_char :: "nat \<Rightarrow> char" where
  "digit_char d = char_of (48 + d)"

fun string_of_nat :: "nat \<Rightarrow> string" where
  "string_of_nat n = (if n < 10 then [digit_char n] else string_of_nat (n div 10) @ [digit_char (n mod 10)])"

declare string_of_nat.simps [simp del]

text \<open>
  \<^verbatim>\<open>Number.prototype.toString\<close> on a magnitude of \<^verbatim>\<open>1e21\<close> or more: the first
  significant digit, the further significant digits after a point if there are any, and
  the decimal exponent, as in \<^verbatim>\<open>1e+21\<close> and \<^verbatim>\<open>1.5e+22\<close>.
\<close>

definition exponent_form :: "nat \<Rightarrow> string" where
  "exponent_form n =
     (let digits = string_of_nat n;
          significant = rev (dropWhile (\<lambda>c. c = CHR ''0'') (rev digits));
          exponent = string_of_nat (length digits - 1)
      in case significant of
           [] \<Rightarrow> ''0''
         | d # more \<Rightarrow> (if more = [] then [d] else d # CHR ''.'' # more) @ ''e+'' @ exponent)"

definition string_of_magnitude :: "nat \<Rightarrow> string" where
  "string_of_magnitude n = (if n < 10 ^ 21 then string_of_nat n else exponent_form n)"

definition string_of_int :: "int \<Rightarrow> string" where
  "string_of_int i =
     (if i < 0 then CHR ''-'' # string_of_magnitude (nat (- i)) else string_of_magnitude (nat i))"

fun join_with :: "string \<Rightarrow> string list \<Rightarrow> string" where
  "join_with sep [] = []"
| "join_with sep [x] = x"
| "join_with sep (x # y # ys) = x @ sep @ join_with sep (y # ys)"

text \<open>The string a template literal \<^verbatim>\<open>`${v}`\<close> inserts for a value.\<close>

fun to_string :: "jsval \<Rightarrow> string" where
  "to_string Undefined = ''undefined''"
| "to_string Null = ''null''"
| "to_string (Bool b) = (if b then ''true'' else ''false'')"
| "to_string (Num n) = string_of_int n"
| "to_string (Str s) = s"
| "to_string (Arr xs) =
     join_with '','' (map (\<lambda>x. case x of Undefined \<Rightarrow> [] | Null \<Rightarrow> [] | _ \<Rightarrow> to_string x) xs)"
| "to_string (Obj _) = ''[object Object]''"

section \<open>Paths\<close>

text \<open>\<^verbatim>\<open>s.split(c)\<close> for a one-character separator.\<close>

fun split_on :: "char \<Rightarrow> string \<Rightarrow> string list" where
  "split_on c [] = [[]]"
| "split_on c (x # xs) =
     (if x = c then [] # split_on c xs
      else (case split_on c xs of [] \<Rightarrow> [[x]] | y # ys \<Rightarrow> (x # y) # ys))"

text \<open>
  One segment of POSIX \<^verbatim>\<open>normalizeString\<close>; the segments kept so far are held in
  reverse. Empty segments and \<^verbatim>\<open>.\<close> are dropped; \<^verbatim>\<open>..\<close> removes the last kept
  segment unless there is none or it is \<^verbatim>\<open>..\<close> itself, in which case it is kept
  only when the path may rise above its start.
\<close>

definition norm_step :: "bool \<Rightarrow> string list \<Rightarrow> string \<Rightarrow> string list" where
  "norm_step allowAboveRoot racc seg =
     (if seg = [] \<or> seg = ''.'' then racc
      else if seg = ''..'' then
        (case racc of
           [] \<Rightarrow> (if allowAboveRoot then [''..''] else [])
         | r # rs \<Rightarrow> (if r = ''..'' then (if allowAboveRoot then ''..'' # r # rs else r # rs) else rs))
      else seg # racc)"

definition normalize_segments :: "bool \<Rightarrow> string list \<Rightarrow> string list \<Rightarrow> string list" where
  "normalize_segments allowAboveRoot racc segs = rev (foldl (norm_step allowAboveRoot) racc segs)"

text \<open>\<^verbatim>\<open>path.posix.normalize\<close>.\<close>

definition path_normalize :: "string \<Rightarrow> string" where
  "path_normalize p =
     (if p = [] then ''.''
      else
        let isAbsolute = (hd p = CHR ''/'');
            trailingSeparator = (last p = CHR ''/'');
            body = join_with ''/'' (normalize_segments (\<not> isAbsolute) [] (split_on (CHR ''/'') p))
        in if body = [] then (if isAbsolute then ''/'' else if trailingSeparator then ''./'' else ''.'')
           else (if isAbsolute then ''/'' else []) @ body @ (if trailingSeparator then ''/'' else []))"

text \<open>
  \<^verbatim>\<open>path.join(...args)\<close>: every argument must be a string (the first that is not raises
  a \<^verbatim>\<open>TypeError\<close>); the non-empty arguments are joined with \<^verbatim>\<open>/\<close> and normalised.
\<close>

definition path_join_strings :: "string list \<Rightarrow> string" where
  "path_join_strings ss =
     (let joined = filter (\<lambda>s. s \<noteq> []) ss
      in if joined = [] then ''.'' else path_normalize (join_with ''/'' joined))"

fun path_join_args :: "jsval list \<Rightarrow> error + string list" where
  "path_join_args [] = Inr []"
| "path_join_args (Str s # rest) =
     (case path_join_args rest of Inl e \<Rightarrow> Inl e | Inr ss \<Rightarrow> Inr (s # ss))"
| "path_join_args (_ # rest) = Inl (TypeError ''The path argument must be of type string'')"

definition path_join :: "jsval list \<Rightarrow> error + string" where
  "path_join args =
     (case path_join_args args of Inl e \<Rightarrow> Inl e | Inr ss \<Rightarrow> Inr (path_join_strings ss))"

text \<open>
  The directory a path string denotes for the file system, as a list of segments from the
  root: a relative path is resolved against the working directory, given by its segments.
\<close>

definition resolve_path :: "string list \<Rightarrow> string \<Rightarrow> string list" where
  "resolve_path cwd p =
     (if p \<noteq> [] \<and> hd p = CHR ''/'' then normalize_segments False [] (split_on (CHR ''/'') p)
      else normalize_segments False (rev cwd) (split_on (CHR ''/'') p))"

section \<open>The nconf configuration provider\<close>

text \<open>
  The provider holds two stores: the file store loaded by \<^verbatim>\<open>nconf.file\<close> (writable)
  and the literal store given to \<^verbatim>\<open>nconf.defaults\<close> (read-only). A key is split into
  a path at \<^verbatim>\<open>:\<close>, the separator the module itself relies on in
  \<^verbatim>\<open>'socket.io:origins'\<close>; a dot is an ordinary character of a key.
\<close>

record nconf_state =
  file_store :: "(string \<times> jsval) list"
  defaults_store :: "(string \<times> jsval) list"

text \<open>
  The own properties a store walks through: the members of an object, the indices and
  \<^verbatim>\<open>length\<close> of an array, none for a primitive value.
\<close>

fun own_members :: "jsval \<Rightarrow> (string \<times> jsval) list" where
  "own_members (Obj kvs) = kvs"
| "own_members (Arr xs) =
     zip (map string_of_nat [0 ..< length xs]) xs @ [(''length'', Num (int (length xs)))]"
| "own_members _ = []"

text \<open>
  \<^verbatim>\<open>Memory.prototype.get\<close>: follow the path while the target is truthy, not a string,
  and has the segment as an own property.
\<close>

fun get_path :: "string list \<Rightarrow> jsval \<Rightarrow> jsval" where
  "get_path [] target = target"
| "get_path (k # ks) target =
     (case target of
        Str _ \<Rightarrow> Undefined
      | _ \<Rightarrow>
        (if \<not> truthy target then Undefined
         else (case map_of (own_members target) k of
                 None \<Rightarrow> Undefined
               | Some v \<Rightarrow> get_path ks v)))"

text \<open>
  \<^verbatim>\<open>Memory.prototype.set\<close>: on the way down a member that is falsy or not of type
  object is replaced by an empty object; the last segment is assigned. An array on the way
  that receives a named member is kept as the object of its own properties.
\<close>

definition descend :: "jsval option \<Rightarrow> (string \<times> jsval) list" where
  "descend m =
     (case m of
        Some (Obj kvs) \<Rightarrow> kvs
      | Some (Arr xs) \<Rightarrow> own_members (Arr xs)
      | _ \<Rightarrow> [])"

fun set_path :: "string list \<Rightarrow> jsval \<Rightarrow> (string \<times> jsval) list \<Rightarrow> (string \<times> jsval) list" where
  "set_path [] v kvs = kvs"
| "set_path [k] v kvs = AList.update k v kvs"
| "set_path (k # k' # ks) v kvs =
     AList.update k (Obj (set_path (k' # ks) v (descend (map_of kvs k)))) kvs"

text \<open>
  \<^verbatim>\<open>Memory.prototype.merge\<close> on the store that \<^verbatim>\<open>common.merge\<close> fills. A value that
  is not an object (a primitive, an array, \<^verbatim>\<open>null\<close>) is set. An object is merged: on
  the way down a missing or falsy member becomes an empty object; at the last segment an
  existing object receives the members of the new one, one by one and each under its own
  path, and anything else is replaced by the new object. A truthy primitive on the way
  down takes no member, so the store stays as it is (the \<^verbatim>\<open>TypeError\<close> of the runtime
  for two or more further segments below such a primitive is not represented).
\<close>

definition merge_descend :: "jsval option \<Rightarrow> (string \<times> jsval) list option" where
  "merge_descend m =
     (case m of
        None \<Rightarrow> Some []
      | Some (Obj kvs) \<Rightarrow> Some kvs
      | Some (Arr xs) \<Rightarrow> Some (own_members (Arr xs))
      | Some v \<Rightarrow> (if truthy v then None else Some []))"

fun memory_merge :: "string list \<Rightarrow> jsval \<Rightarrow> (string \<times> jsval) list \<Rightarrow> (string \<times> jsval) list" where
  "memory_merge [] (Obj members) target = target"
| "memory_merge [k] (Obj members) target =
     (case map_of target k of
        Some (Obj existing) \<Rightarrow>
          AList.update k
            (Obj (fold (\<lambda>member. memory_merge (split_on (CHR '':'') (fst member)) (snd member))
                    members existing))
            target
      | Some Null \<Rightarrow>
          (if members = [] then target
           else AList.update k
                  (Obj (fold (\<lambda>member. memory_merge (split_on (CHR '':'') (fst member)) (snd member))
                          members []))
                  target)
      | _ \<Rightarrow> AList.update k (Obj members) target)"
| "memory_merge (k # k' # ks) (Obj members) target =
     (case merge_descend (map_of target k) of
        None \<Rightarrow> target
      | Some inner \<Rightarrow> AList.update k (Obj (memory_merge (k' # ks) (Obj members) inner)) target)"
| "memory_merge path v target = set_path path v target"

text \<open>\<^verbatim>\<open>common.merge(objs)\<close>: every member of every object, in turn, merged into an empty store.\<close>

definition common_merge :: "(string \<times> jsval) list list \<Rightarrow> jsval" where
  "common_merge objs =
     Obj (fold (\<lambda>members store.
                  fold (\<lambda>member. memory_merge (split_on (CHR '':'') (fst member)) (snd member))
                    members store)
            objs [])"

text \<open>
  \<^verbatim>\<open>nconf.get(key)\<close>: the stores are asked in turn, the file first. A value that is not
  an object is returned by the first store that has one. Objects are collected instead, and
  what is returned is their merge, the object of the file over the object of the defaults.
\<close>

definition nconf_get :: "nconf_state \<Rightarrow> string \<Rightarrow> jsval" where
  "nconf_get n key =
     (let path = split_on (CHR '':'') key;
          v = get_path path (Obj (file_store n));
          d = get_path path (Obj (defaults_store n))
      in case v of
           Obj members \<Rightarrow>
             (case d of
                Obj defaults \<Rightarrow> common_merge [defaults, members]
              | _ \<Rightarrow> common_merge [members])
         | Undefined \<Rightarrow> (case d of Obj defaults \<Rightarrow> common_merge [defaults] | _ \<Rightarrow> d)
         | _ \<Rightarrow> v)"

text \<open>\<^verbatim>\<open>nconf.set(key, value)\<close>: written to the first store that is not read-only.\<close>

definition nconf_set :: "string \<Rightarrow> jsval \<Rightarrow> nconf_state \<Rightarrow> nconf_state" where
  "nconf_set key v n = n\<lparr>file_store := set_path (split_on (CHR '':'') key) v (file_store n)\<rparr>"

section \<open>Module top level: configuration, required keys, environment guard\<close>

text \<open>
  What the module finds when it is loaded: whether \<^verbatim>\<open>config.json\<close> can be read and
  parsed and what it holds, the directory of the module (\<^verbatim>\<open>__dirname\<close>), and the
  function \<^verbatim>\<open>url.parse\<close> of the runtime on strings. The environment variables and the
  logger of lines 16-25, and every log statement after them, have no part in what follows
  and are left out; paths are POSIX paths.
\<close>

datatype config_source = Unreadable | Malformed | Parsed "(string \<times> jsval) list"

record url_object =
  protocol :: jsval
  host :: jsval
  hostname :: jsval
  port :: jsval
  pathname :: jsval

record env =
  config_json :: config_source
  dirname :: string
  url_parse :: "string \<Rightarrow> error + url_object"

definition js_url_parse :: "env \<Rightarrow> jsval \<Rightarrow> error + url_object" where
  "js_url_parse e v =
     (case v of
        Str s \<Rightarrow> url_parse e s
      | _ \<Rightarrow> Inl (TypeError ''The url argument must be of type string''))"

definition url_value :: "url_object \<Rightarrow> jsval" where
  "url_value u =
     Obj [(''protocol'', protocol u), (''host'', host u), (''hostname'', hostname u),
          (''port'', port u), (''pathname'', pathname u)]"

text \<open>Lines 28-45: read the file, load it into nconf, add the defaults.\<close>

definition load_config :: "env \<Rightarrow> error + nconf_state" where
  "load_config e =
     (case config_json e of
        Unreadable \<Rightarrow> Inl FsReadError
      | Malformed \<Rightarrow> Inl ConfigParseError
      | Parsed kvs \<Rightarrow>
          Inr \<lparr>file_store = kvs,
               defaults_store =
                 [(''base_dir'', Str (path_join_strings [dirname e, ''../..''])),
                  (''themes_path'', Str (path_join_strings [dirname e, ''../../node_modules''])),
                  (''upload_path'', Str ''test/uploads''),
                  (''views_dir'', Str (path_join_strings [dirname e, ''../../build/public/templates''])),
                  (''relative_path'', Str [])]\<rparr>)"

text \<open>Lines 49-52, given the parsed URL.\<close>

definition derive_paths :: "url_object \<Rightarrow> nconf_state \<Rightarrow> error + nconf_state" where
  "derive_paths urlObject n0 =
     (let relativePath = (if \<not> strict_eq (pathname urlObject) (Str ''/'') then pathname urlObject else Str []);
          n1 = nconf_set ''relative_path'' relativePath n0;
          n2 = nconf_set ''asset_base_url'' (Str (to_string relativePath @ ''/assets'')) n1
      in case path_join [nconf_get n2 ''base_dir'', nconf_get n2 ''upload_path''] of
           Inl err \<Rightarrow> Inl err
         | Inr upload_path \<Rightarrow> Inr (nconf_set ''upload_path'' (Str upload_path) n2))"

text \<open>Lines 53-58.\<close>

definition derive_url_settings :: "url_object \<Rightarrow> nconf_state \<Rightarrow> nconf_state" where
  "derive_url_settings urlObject n3 =
     (let n4 = nconf_set ''upload_url'' (Str ''/assets/uploads'') n3;
          n5 = nconf_set ''url_parsed'' (url_value urlObject) n4;
          n6 = nconf_set ''base_url''
                 (Str (to_string (protocol urlObject) @ ''//'' @ to_string (host urlObject))) n5;
          n7 = nconf_set ''secure'' (Bool (strict_eq (protocol urlObject) (Str ''https:''))) n6;
          n8 = nconf_set ''use_port'' (Bool (truthy (port urlObject))) n7
      in nconf_set ''port'' (js_or (port urlObject) (js_or (nconf_get n8 ''port'') (Num 4567))) n8)"

text \<open>Lines 61-69.\<close>

definition derive_cluster_settings :: "url_object \<Rightarrow> nconf_state \<Rightarrow> nconf_state" where
  "derive_cluster_settings urlObject n9 =
     (let domain = js_or (nconf_get n9 ''cookieDomain'') (hostname urlObject);
          origins = js_or (nconf_get n9 ''socket.io:origins'')
                      (Str (to_string (protocol urlObject) @ ''//'' @ to_string domain @ '':*''));
          n10 = nconf_set ''socket.io:origins'' origins n9
      in if strict_eq (nconf_get n10 ''isCluster'') Undefined
         then nconf_set ''singleHostCluster'' (Bool False)
                (nconf_set ''isCluster'' (Bool False)
                  (nconf_set ''isPrimary'' (Bool True) n10))
         else n10)"

text \<open>Lines 49-69.\<close>

definition derive_settings :: "url_object \<Rightarrow> nconf_state \<Rightarrow> error + nconf_state" where
  "derive_settings urlObject n0 =
     (case derive_paths urlObject n0 of
        Inl err \<Rightarrow> Inl err
      | Inr n3 \<Rightarrow> Inr (derive_cluster_settings urlObject (derive_url_settings urlObject n3)))"

text \<open>Lines 28-69: the configuration as the rest of the module sees it.\<close>

definition resolve_config :: "env \<Rightarrow> error + nconf_state" where
  "resolve_config e =
     (case load_config e of
        Inl err \<Rightarrow> Inl err
      | Inr n0 \<Rightarrow>
         (case js_url_parse e (nconf_get n0 ''url'') of
            Inl err \<Rightarrow> Inl err
          | Inr urlObject \<Rightarrow> derive_settings urlObject n0))"

text \<open>Lines 76-79.\<close>

definition require_test_database :: "jsval \<Rightarrow> error + unit" where
  "require_test_database testDbConfig =
     (if \<not> truthy testDbConfig then Inl (Error ''Test database is not defined in config.json'')
      else Inr ())"

text \<open>\<^verbatim>\<open>a.k === b.k\<close>, with the property reads in the order of the source.\<close>

definition same_field :: "jsval \<Rightarrow> jsval \<Rightarrow> string \<Rightarrow> error + bool" where
  "same_field a b k =
     (case get_prop a k of
        Inl err \<Rightarrow> Inl err
      | Inr x \<Rightarrow> (case get_prop b k of Inl err \<Rightarrow> Inl err | Inr y \<Rightarrow> Inr (strict_eq x y)))"

text \<open>Lines 82-87; the conjunction stops at its first false operand.\<close>

definition environment_guard :: "jsval \<Rightarrow> jsval \<Rightarrow> error + unit" where
  "environment_guard testDbConfig productionDbConfig =
     (case same_field testDbConfig productionDbConfig ''database'' of
        Inl err \<Rightarrow> Inl err
      | Inr False \<Rightarrow> Inr ()
      | Inr True \<Rightarrow>
         (case same_field testDbConfig productionDbConfig ''host'' of
            Inl err \<Rightarrow> Inl err
          | Inr False \<Rightarrow> Inr ()
          | Inr True \<Rightarrow>
             (case same_field testDbConfig productionDbConfig ''port'' of
                Inl err \<Rightarrow> Inl err
              | Inr False \<Rightarrow> Inr ()
              | Inr True \<Rightarrow> Inl (Error ''Test database has the same config as production database''))))"

text \<open>
  Lines 28-96: the module either throws while it is loaded, or leaves the configuration
  with the test database stored under the key \<^verbatim>\<open>`database.${dbType}`\<close>.
\<close>

definition load_module :: "env \<Rightarrow> error + nconf_state" where
  "load_module e =
     (case resolve_config e of
        Inl err \<Rightarrow> Inl err
      | Inr n \<Rightarrow>
         (let dbType = nconf_get n ''database.type'';
              testDbConfig = nconf_get n ''test_database'';
              productionDbConfig = nconf_get n ''database''
          in case require_test_database testDbConfig of
               Inl err \<Rightarrow> Inl err
             | Inr _ \<Rightarrow>
                (case environment_guard testDbConfig productionDbConfig of
                   Inl err \<Rightarrow> Inl err
                 | Inr _ \<Rightarrow> Inr (nconf_set (''database.'' @ to_string dbType) testDbConfig n))))"

section \<open>The test process: store, in-memory configuration, file system, calls\<close>

datatype node = File | Dir

text \<open>
  The state the hooks of the module act on. The store is held by what the module writes to
  it: the persisted configuration, the privileges granted to groups, the sorted set of
  active plugins, the chosen theme, and every other record. The file system maps the
  segments of an absolute path to what is there. The trace lists the calls to collaborators
  in the order they were made; \<open>reset_hooks\<close> counts the suites that have the reset
  callback registered.
\<close>

record state =
  nconf :: nconf_state
  meta_config :: "string \<rightharpoonup> jsval"
  store_config :: "string \<rightharpoonup> jsval"
  store_privileges :: "(string \<times> string) set"
  store_plugins :: "jsval list"
  store_theme :: "(string \<times> string) option"
  store_records :: "string \<rightharpoonup> jsval"
  fs :: "string list \<rightharpoonup> node"
  trace :: "event list"
  reset_hooks :: nat

text \<open>
  What the process does not decide itself: which calls to collaborators fail (by the
  position the call takes in the trace), whether the database module defines
  \<^verbatim>\<open>createIndices\<close>, what \<^verbatim>\<open>meta.configs.init\<close> leaves in \<^verbatim>\<open>meta.config\<close> for a given
  persisted configuration, what \<^verbatim>\<open>require\<close> finds at the path of \<^verbatim>\<open>defaults.json\<close>,
  the version in \<^verbatim>\<open>package.json\<close>, the number of suites below the root suite, and the
  working directory.
\<close>

record world =
  rejects :: "nat \<Rightarrow> bool"
  createIndices_defined :: bool
  configs_init :: "(string \<rightharpoonup> jsval) \<Rightarrow> (string \<rightharpoonup> jsval)"
  require_defaults :: "string \<Rightarrow> (string \<rightharpoonup> jsval) option"
  package_version :: jsval
  suites :: nat
  cwd :: "string list"

type_synonym step = "state \<Rightarrow> error option \<times> state"

text \<open>
  A call to a collaborator is recorded when it is made; it then either fails, or has its
  effect on the state, which can itself be an error.
\<close>

definition invoke :: "world \<Rightarrow> event \<Rightarrow> (state \<Rightarrow> error + state) \<Rightarrow> step" where
  "invoke w ev effect s =
     (let s1 = s\<lparr>trace := trace s @ [ev]\<rparr>
      in if rejects w (length (trace s)) then (Some (Rejected ev), s1)
         else (case effect s1 of Inl err \<Rightarrow> (Some err, s1) | Inr s2 \<Rightarrow> (None, s2)))"

text \<open>A statement of the module itself: it throws or changes the state.\<close>

definition local_step :: "(state \<Rightarrow> error + state) \<Rightarrow> step" where
  "local_step f s = (case f s of Inl err \<Rightarrow> (Some err, s) | Inr s' \<Rightarrow> (None, s'))"

text \<open>Statements in sequence: the first error ends the function.\<close>

fun run_steps :: "step list \<Rightarrow> step" where
  "run_steps [] s = (None, s)"
| "run_steps (f # rest) s =
     (case f s of
        (Some err, s') \<Rightarrow> (Some err, s')
      | (None, s') \<Rightarrow> run_steps rest s')"

subsection \<open>Collaborators\<close>

text \<open>
  Modelled from the spec: \<^verbatim>\<open>db.emptydb\<close> (in \<^verbatim>\<open>src/database\<close>, not among the sources)
  irreversibly erases all persisted records of the store.
\<close>

definition db_emptydb :: "state \<Rightarrow> state" where
  "db_emptydb s =
     s\<lparr>store_config := Map.empty, store_privileges := {}, store_plugins := [],
       store_theme := None, store_records := Map.empty\<rparr>"

text \<open>
  Modelled from the spec: \<^verbatim>\<open>meta.configs.setOnEmpty\<close> (in \<^verbatim>\<open>src/meta\<close>, not among the
  sources) applies the defaults only to keys currently absent, and persists them; it never
  overwrites a configured value.
\<close>

definition meta_configs_setOnEmpty :: "(string \<rightharpoonup> jsval) \<Rightarrow> state \<Rightarrow> state" where
  "meta_configs_setOnEmpty defaults s = s\<lparr>store_config := defaults ++ store_config s\<rparr>"

text \<open>
  Modelled from the spec: \<^verbatim>\<open>privileges.global.give\<close> (in \<^verbatim>\<open>src/privileges\<close>, not among
  the sources) grants named capabilities to a named group; grants are additive.
\<close>

definition privileges_global_give :: "string list \<Rightarrow> string \<Rightarrow> state \<Rightarrow> state" where
  "privileges_global_give privs groupName s =
     s\<lparr>store_privileges := store_privileges s \<union> (\<lambda>p. (p, groupName)) ` set privs\<rparr>"

text \<open>
  Modelled from the spec: \<^verbatim>\<open>db.sortedSetAdd\<close> (in \<^verbatim>\<open>src/database\<close>, not among the
  sources) adds members to an ordered set; a member already present is not added again.
\<close>

definition add_member :: "jsval \<Rightarrow> jsval list \<Rightarrow> jsval list" where
  "add_member m ms = (if m \<in> set ms then ms else ms @ [m])"

definition db_sortedSetAdd :: "jsval list \<Rightarrow> state \<Rightarrow> state" where
  "db_sortedSetAdd members s = s\<lparr>store_plugins := fold add_member members (store_plugins s)\<rparr>"

text \<open>
  Modelled from the spec: \<^verbatim>\<open>meta.themes.set\<close> (in \<^verbatim>\<open>src/meta\<close>, not among the sources)
  applies a theme selection.
\<close>

definition meta_themes_set :: "string \<Rightarrow> string \<Rightarrow> state \<Rightarrow> state" where
  "meta_themes_set type ident s = s\<lparr>store_theme := Some (type, ident)\<rparr>"

text \<open>
  \<^verbatim>\<open>fs.promises.rm(p, { recursive: true, force: true })\<close>: the path and everything below
  it is gone; a path that does not exist is not an error.
\<close>

definition fs_rm :: "world \<Rightarrow> string \<Rightarrow> state \<Rightarrow> state" where
  "fs_rm w p s =
     (let target = resolve_path (cwd w) p
      in s\<lparr>fs := (\<lambda>q. if prefix target q then None else fs s q)\<rparr>)"

text \<open>
  \<^verbatim>\<open>mkdirp(p)\<close>: the directory and every missing directory above it is created; a file
  in the place of one of them is an error.
\<close>

definition mkdirp :: "world \<Rightarrow> string \<Rightarrow> state \<Rightarrow> error + state" where
  "mkdirp w p s =
     (let target = resolve_path (cwd w) p
      in if \<exists>q \<in> set (prefixes target). fs s q = Some File then Inl (FsError p)
         else Inr (s\<lparr>fs := (\<lambda>q. if q \<noteq> [] \<and> prefix q target then Some Dir else fs s q)\<rparr>))"

subsection \<open>\<^verbatim>\<open>setupDefaultConfigs\<close>, \<^verbatim>\<open>giveDefaultGlobalPrivileges\<close>, \<^verbatim>\<open>enableDefaultPlugins\<close>\<close>

text \<open>Lines 196-202.\<close>

definition setupDefaultConfigs :: "world \<Rightarrow> step" where
  "setupDefaultConfigs w s =
     (case path_join [nconf_get (nconf s) ''base_dir'', Str ''install/data/defaults.json''] of
        Inl err \<Rightarrow> (Some err, s)
      | Inr file \<Rightarrow>
         (case require_defaults w file of
            None \<Rightarrow> (Some (ModuleNotFound file), s)
          | Some loaded \<Rightarrow>
             (let defaults = loaded(''eventLoopCheckEnabled'' \<mapsto> Num 0, ''minimumPasswordStrength'' \<mapsto> Num 0)
              in invoke w (Await MetaConfigsSetOnEmpty)
                   (\<lambda>s'. Inr (meta_configs_setOnEmpty defaults s')) s)))"

text \<open>Lines 205-216.\<close>

definition giveDefaultGlobalPrivileges :: "world \<Rightarrow> step" where
  "giveDefaultGlobalPrivileges w =
     run_steps
       [invoke w (Await (PrivilegesGlobalGive ''registered-users''))
          (\<lambda>s. Inr (privileges_global_give
             [''groups:chat'', ''groups:upload:post:image'', ''groups:signature'', ''groups:search:content'',
              ''groups:search:users'', ''groups:search:tags'', ''groups:local:login'', ''groups:view:users'',
              ''groups:view:tags'', ''groups:view:groups'']
             ''registered-users'' s)),
        invoke w (Await (PrivilegesGlobalGive ''guests''))
          (\<lambda>s. Inr (privileges_global_give
             [''groups:view:users'', ''groups:view:tags'', ''groups:view:groups'']
             ''guests'' s))]"

text \<open>Lines 219-230.\<close>

definition enableDefaultPlugins :: "world \<Rightarrow> step" where
  "enableDefaultPlugins w s =
     (let testPlugins = (case nconf_get (nconf s) ''test_plugins'' of Arr xs \<Rightarrow> xs | _ \<Rightarrow> []);
          defaultEnabled =
            [Str ''nodebb-plugin-dbsearch'', Str ''nodebb-widget-essentials'',
             Str ''nodebb-plugin-composer-default''] @ testPlugins
      in invoke w (Await (DbSortedSetAdd ''plugins:active''))
           (\<lambda>s'. Inr (db_sortedSetAdd defaultEnabled s')) s)"

subsection \<open>\<^verbatim>\<open>setupMockDefaults\<close>\<close>

text \<open>Line 153: the store is emptied.\<close>

definition empty_store :: "world \<Rightarrow> step" where
  "empty_store w = invoke w (Await DbEmptydb) (\<lambda>s. Inr (db_emptydb s))"

text \<open>
  Lines 156-176: default configuration, the overrides written into \<^verbatim>\<open>meta.config\<close>, the
  cache resets, the privileges, the plugins and the theme.
\<close>

definition seed :: "world \<Rightarrow> step" where
  "seed w =
     run_steps
       [setupDefaultConfigs w,
        invoke w (Await MetaConfigsInit)
          (\<lambda>s. Inr (s\<lparr>meta_config := configs_init w (store_config s)\<rparr>)),
        local_step (\<lambda>s. Inr (s\<lparr>meta_config := (meta_config s)(''postDelay'' \<mapsto> Num 0)\<rparr>)),
        local_step (\<lambda>s. Inr (s\<lparr>meta_config := (meta_config s)(''initialPostDelay'' \<mapsto> Num 0)\<rparr>)),
        local_step (\<lambda>s. Inr (s\<lparr>meta_config := (meta_config s)(''newbiePostDelay'' \<mapsto> Num 0)\<rparr>)),
        local_step (\<lambda>s. Inr (s\<lparr>meta_config := (meta_config s)(''autoDetectLang'' \<mapsto> Num 0)\<rparr>)),
        invoke w (Plain GroupsCacheReset) Inr,
        invoke w (Plain PostsCacheReset) Inr,
        invoke w (Plain CacheReset) Inr,
        invoke w (Plain UploadsClearCache) Inr,
        giveDefaultGlobalPrivileges w,
        enableDefaultPlugins w,
        invoke w (Await MetaThemesSet)
          (\<lambda>s. Inr (meta_themes_set ''local'' ''nodebb-theme-persona'' s))]"

text \<open>Lines 183-189.\<close>

definition folders :: "string list" where
  "folders =
     [''test/uploads'', ''test/uploads/category'', ''test/uploads/files'',
      ''test/uploads/system'', ''test/uploads/profile'']"

text \<open>Lines 179-192: the upload root is removed, then every folder is created in turn.\<close>

definition stage :: "world \<Rightarrow> step" where
  "stage w =
     run_steps
       (invoke w (Await (FsRm ''test/uploads'')) (\<lambda>s. Inr (fs_rm w ''test/uploads'' s))
        # map (\<lambda>folder. invoke w (Await (Mkdirp folder)) (mkdirp w folder)) folders)"

text \<open>Lines 151-193.\<close>

definition setupMockDefaults :: "world \<Rightarrow> step" where
  "setupMockDefaults w = run_steps [empty_store w, seed w, stage w]"

subsection \<open>The \<^verbatim>\<open>before\<close> hook and the whole bootstrap\<close>

text \<open>Lines 103-111.\<close>

definition hook_settings :: "env \<Rightarrow> world \<Rightarrow> state \<Rightarrow> error + state" where
  "hook_settings e w s =
     (case js_url_parse e (nconf_get (nconf s) ''url'') of
        Inl err \<Rightarrow> Inl err
      | Inr urlObject \<Rightarrow>
         (let n1 = nconf_set ''core_templates_path'' (Str (path_join_strings [dirname e, ''../../src/views''])) (nconf s)
          in case path_join [nconf_get n1 ''themes_path'', Str ''nodebb-theme-persona/templates''] of
               Inl err \<Rightarrow> Inl err
             | Inr base_templates_path \<Rightarrow>
                (let n2 = nconf_set ''base_templates_path'' (Str base_templates_path) n1
                 in case path_join [nconf_get n2 ''themes_path'', Str ''nodebb-theme-persona'', Str ''theme.json''] of
                      Inl err \<Rightarrow> Inl err
                    | Inr theme_config \<Rightarrow>
                        Inr (s\<lparr>nconf :=
                          nconf_set ''jobsDisabled'' (Bool False)
                            (nconf_set ''runJobs'' (Bool False)
                              (nconf_set ''version'' (package_version w)
                                (nconf_set ''socket.io:origins'' (Str ''*:*'')
                                  (nconf_set ''bcrypt_rounds'' (Num 1)
                                    (nconf_set ''theme_config'' (Str theme_config) n2)))))\<rparr>))))"

text \<open>Line 123.\<close>

definition theme_templates_setting :: "state \<Rightarrow> error + state" where
  "theme_templates_setting s =
     (let config = (\<lambda>k. case meta_config s k of None \<Rightarrow> Undefined | Some v \<Rightarrow> v)
      in if truthy (config ''theme:templates'')
         then (case path_join [nconf_get (nconf s) ''themes_path'', config ''theme:id'', config ''theme:templates''] of
                 Inl err \<Rightarrow> Inl err
               | Inr p \<Rightarrow> Inr (s\<lparr>nconf := nconf_set ''theme_templates_path'' (Str p) (nconf s)\<rparr>))
         else Inr (s\<lparr>nconf := nconf_set ''theme_templates_path''
                                 (nconf_get (nconf s) ''base_templates_path'') (nconf s)\<rparr>))"

text \<open>Lines 125-127.\<close>

definition session_key_setting :: "state \<Rightarrow> error + state" where
  "session_key_setting s =
     Inr (if \<not> truthy (nconf_get (nconf s) ''sessionKey'')
          then s\<lparr>nconf := nconf_set ''sessionKey'' (Str ''express.sid'') (nconf s)\<rparr>
          else s)"

text \<open>Lines 119-140, without the two settings in between.\<close>

definition create_indices :: "world \<Rightarrow> step" where
  "create_indices w s =
     (if createIndices_defined w then invoke w (Await DbCreateIndices) Inr s else (None, s))"

text \<open>Lines 143-147: every suite below the root gets the reset callback.\<close>

definition register_reset :: "world \<Rightarrow> state \<Rightarrow> error + state" where
  "register_reset w s = Inr (s\<lparr>reset_hooks := reset_hooks s + suites w\<rparr>)"

text \<open>Lines 99-148; the time limit that line 100 sets on the hook is left out.\<close>

definition before_hook :: "env \<Rightarrow> world \<Rightarrow> step" where
  "before_hook e w =
     run_steps
       [local_step (hook_settings e w),
        invoke w (Await DbInit) Inr,
        create_indices w,
        setupMockDefaults w,
        invoke w (Await DbInitSessionStore) Inr,
        local_step theme_templates_setting,
        local_step session_key_setting,
        invoke w (Await MetaDependenciesCheck) Inr,
        invoke w (Await SocketsInit) Inr,
        invoke w (Plain NotificationsStartJobs) Inr,
        invoke w (Plain UserStartJobs) Inr,
        invoke w (Await WebserverListen) Inr,
        local_step (register_reset w)]"

text \<open>
  Loading the module and, when that did not throw, running the \<^verbatim>\<open>before\<close> hook it
  registered. The reset callback of a suite is \<open>setupMockDefaults\<close>.
\<close>

definition bootstrap :: "env \<Rightarrow> world \<Rightarrow> step" where
  "bootstrap e w s =
     (case load_module e of
        Inl err \<Rightarrow> (Some err, s)
      | Inr n \<Rightarrow> before_hook e w (s\<lparr>nconf := n\<rparr>))"

section \<open>Notions used to state the properties\<close>

text \<open>The value of a member of a configuration value that is an object.\<close>

definition member :: "jsval \<Rightarrow> string \<Rightarrow> jsval" where
  "member v k = (case get_prop v k of Inl _ \<Rightarrow> Undefined | Inr x \<Rightarrow> x)"

text \<open>
  Two store targets agree when database name, host and port are each strictly equal.
\<close>

definition targets_agree :: "jsval \<Rightarrow> jsval \<Rightarrow> bool" where
  "targets_agree t p =
     (strict_eq (member t ''database'') (member p ''database'') \<and>
      strict_eq (member t ''host'') (member p ''host'') \<and>
      strict_eq (member t ''port'') (member p ''port''))"

text \<open>What \<^verbatim>\<open>config.json\<close> and the defaults give for a key, before anything is derived.\<close>

definition configured :: "env \<Rightarrow> string \<Rightarrow> jsval" where
  "configured e key = (case load_config e of Inl _ \<Rightarrow> Undefined | Inr n0 \<Rightarrow> nconf_get n0 key)"

text \<open>The error thrown at line 86.\<close>

definition unsafe_environment :: error where
  "unsafe_environment = Error ''Test database has the same config as production database''"

text \<open>The calls of a complete run of each part, in the order of the source.\<close>

definition seed_calls :: "event list" where
  "seed_calls =
     [Await MetaConfigsSetOnEmpty, Await MetaConfigsInit,
      Plain GroupsCacheReset, Plain PostsCacheReset, Plain CacheReset, Plain UploadsClearCache,
      Await (PrivilegesGlobalGive ''registered-users''), Await (PrivilegesGlobalGive ''guests''),
      Await (DbSortedSetAdd ''plugins:active''), Await MetaThemesSet]"

definition stage_calls :: "event list" where
  "stage_calls = Await (FsRm ''test/uploads'') # map (\<lambda>folder. Await (Mkdirp folder)) folders"

definition reset_calls :: "event list" where
  "reset_calls = [Await DbEmptydb] @ seed_calls @ stage_calls"

definition service_calls :: "event list" where
  "service_calls =
     [Await DbInitSessionStore, Await MetaDependenciesCheck, Await SocketsInit,
      Plain NotificationsStartJobs, Plain UserStartJobs, Await WebserverListen]"

definition hook_calls :: "world \<Rightarrow> event list" where
  "hook_calls w =
     [Await DbInit] @ (if createIndices_defined w then [Await DbCreateIndices] else [])
     @ reset_calls @ service_calls"

text \<open>The calls that start a dependent service: session store, realtime transport, job processors, web listener.\<close>

fun starts_service :: "event \<Rightarrow> bool" where
  "starts_service (Await c) = (c \<in> {DbInitSessionStore, SocketsInit, WebserverListen})"
| "starts_service (Plain c) = (c \<in> {NotificationsStartJobs, UserStartJobs})"

section \<open>A concrete installation\<close>

text \<open>
  A repository at \<^verbatim>\<open>/repo\<close>, run from there, with a Redis store on the local host: the
  production store target is database 0, the test store target is the database with the
  given index. The state the process starts from holds left-overs of an earlier run: a
  configured password strength, a privilege, a plugin, a record and an uploaded file.
\<close>

definition example_url_parse :: "string \<Rightarrow> error + url_object" where
  "example_url_parse u =
     (if u = ''http://127.0.0.1:4567''
      then Inr \<lparr>protocol = Str ''http:'', host = Str ''127.0.0.1:4567'', hostname = Str ''127.0.0.1'',
                port = Str ''4567'', pathname = Str ''/''\<rparr>
      else Inl (TypeError ''Invalid URL''))"

definition example_target :: "int \<Rightarrow> jsval" where
  "example_target index =
     Obj [(''type'', Str ''redis''), (''host'', Str ''127.0.0.1''), (''port'', Num 6379),
          (''database'', Num index)]"

definition example_config :: "int \<Rightarrow> (string \<times> jsval) list" where
  "example_config test_index =
     [(''url'', Str ''http://127.0.0.1:4567''),
      (''database.type'', Str ''redis''),
      (''database'', example_target 0),
      (''test_database'', example_target test_index)]"

text \<open>
  The same installation with no engine type in its configuration: there is no key
  \<^verbatim>\<open>database.type\<close>, and the store targets have no member \<^verbatim>\<open>type\<close>.
\<close>

definition untyped_target :: "int \<Rightarrow> jsval" where
  "untyped_target index =
     Obj [(''host'', Str ''127.0.0.1''), (''port'', Num 6379), (''database'', Num index)]"

definition untyped_config :: "(string \<times> jsval) list" where
  "untyped_config =
     [(''url'', Str ''http://127.0.0.1:4567''),
      (''database'', untyped_target 0),
      (''test_database'', untyped_target 1)]"

definition example_env :: "(string \<times> jsval) list \<Rightarrow> env" where
  "example_env kvs = \<lparr>config_json = Parsed kvs, dirname = ''/repo/test/mocks'', url_parse = example_url_parse\<rparr>"

definition example_world :: world where
  "example_world =
     \<lparr>rejects = (\<lambda>_. False),
      createIndices_defined = True,
      configs_init = (\<lambda>c. c),
      require_defaults =
        (\<lambda>file. if file = ''/repo/install/data/defaults.json''
                 then Some [''minimumPasswordStrength'' \<mapsto> Num 1, ''postDelay'' \<mapsto> Num 10]
                 else None),
      package_version = Str ''3.8.4'',
      suites = 2,
      cwd = [''repo'']\<rparr>"

definition example_state :: state where
  "example_state =
     \<lparr>nconf = \<lparr>file_store = [(''base_dir'', Str ''/repo'')], defaults_store = []\<rparr>,
      meta_config = [''postDelay'' \<mapsto> Num 10],
      store_config = [''minimumPasswordStrength'' \<mapsto> Num 6],
      store_privileges = {(''groups:chat'', ''guests'')},
      store_plugins = [Str ''nodebb-plugin-left-over''],
      store_theme = None,
      store_records = [''topic:1'' \<mapsto> Str ''left over''],
      fs = [[''repo''] \<mapsto> Dir, [''repo'', ''test''] \<mapsto> Dir, [''repo'', ''test'', ''uploads''] \<mapsto> Dir,
            [''repo'', ''test'', ''uploads'', ''files''] \<mapsto> Dir,
            [''repo'', ''test'', ''uploads'', ''files'', ''stale.png''] \<mapsto> File],
      trace = [],
      reset_hooks = 0\<rparr>"



section \<open>Properties of steps\<close>

text \<open>
  A step emits a list of calls when every run of it appends an initial part of the list to
  the trace, and the whole list when it succeeds.
\<close>

definition emits :: "event list \<Rightarrow> step \<Rightarrow> bool" where
  "emits evs f \<longleftrightarrow>
     (\<forall>s. (\<exists>n. n \<le> length evs \<and> trace (snd (f s)) = trace s @ take n evs) \<and>
          (fst (f s) = None \<longrightarrow> trace (snd (f s)) = trace s @ evs))"

text \<open>A step keeps the nconf configuration when no run of it changes it.\<close>

definition keeps_nconf :: "step \<Rightarrow> bool" where
  "keeps_nconf f \<longleftrightarrow> (\<forall>s. nconf (snd (f s)) = nconf s)"

text \<open>A step preserves a property of the nconf configuration.\<close>

definition preserves :: "(nconf_state \<Rightarrow> bool) \<Rightarrow> step \<Rightarrow> bool" where
  "preserves P f \<longleftrightarrow> (\<forall>s. P (nconf s) \<longrightarrow> P (nconf (snd (f s))))"

text \<open>The first segment of the path a key is split into.\<close>

definition first_segment :: "string \<Rightarrow> string" where
  "first_segment key = takeWhile (\<lambda>c. c \<noteq> CHR '':'') key"

text \<open>The first segments of the keys that lines 50-68 set.\<close>

definition derived_keys :: "string list" where
  "derived_keys =
     [''relative_path'', ''asset_base_url'', ''upload_path'', ''upload_url'', ''url_parsed'',
      ''base_url'', ''secure'', ''use_port'', ''port'', ''socket.io'', ''isPrimary'', ''isCluster'',
      ''singleHostCluster'']"

text \<open>The first segments of the keys that the \<^verbatim>\<open>before\<close> hook sets.\<close>

definition hook_keys :: "string list" where
  "hook_keys =
     [''core_templates_path'', ''base_templates_path'', ''theme_config'', ''bcrypt_rounds'',
      ''socket.io'', ''version'', ''runJobs'', ''jobsDisabled'', ''theme_templates_path'',
      ''sessionKey'']"

text \<open>What \<^verbatim>\<open>nconf.get(key)\<close> returns once the module has been loaded, if it loads.\<close>

definition loaded_value :: "env \<Rightarrow> string \<Rightarrow> jsval option" where
  "loaded_value e key = (case load_module e of Inl _ \<Rightarrow> None | Inr n \<Rightarrow> Some (nconf_get n key))"

text \<open>The key under which line 90 stores the test store target.\<close>

definition engine_key :: "env \<Rightarrow> string" where
  "engine_key e = ''database.'' @ to_string (configured e ''database.type'')"

text \<open>What \<^verbatim>\<open>nconf.get\<close> returns for a value that only the file store holds.\<close>

definition returned :: "jsval \<Rightarrow> jsval" where
  "returned v = (case v of Obj members \<Rightarrow> common_merge [members] | _ \<Rightarrow> v)"

section \<open>The state after a complete run of each part\<close>

text \<open>The defaults handed to \<^verbatim>\<open>setOnEmpty\<close>, given what \<^verbatim>\<open>defaults.json\<close> holds.\<close>

definition seed_defaults :: "(string \<rightharpoonup> jsval) \<Rightarrow> (string \<rightharpoonup> jsval)" where
  "seed_defaults loaded = loaded(''eventLoopCheckEnabled'' \<mapsto> Num 0, ''minimumPasswordStrength'' \<mapsto> Num 0)"

definition defaults_file :: "state \<Rightarrow> error + string" where
  "defaults_file s = path_join [nconf_get (nconf s) ''base_dir'', Str ''install/data/defaults.json'']"

definition default_privileges :: "(string \<times> string) set" where
  "default_privileges =
     (\<lambda>p. (p, ''registered-users'')) `
       set [''groups:chat'', ''groups:upload:post:image'', ''groups:signature'', ''groups:search:content'',
            ''groups:search:users'', ''groups:search:tags'', ''groups:local:login'', ''groups:view:users'',
            ''groups:view:tags'', ''groups:view:groups'']
     \<union> (\<lambda>p. (p, ''guests'')) ` set [''groups:view:users'', ''groups:view:tags'', ''groups:view:groups'']"

definition default_plugins :: "nconf_state \<Rightarrow> jsval list" where
  "default_plugins n =
     [Str ''nodebb-plugin-dbsearch'', Str ''nodebb-widget-essentials'', Str ''nodebb-plugin-composer-default'']
     @ (case nconf_get n ''test_plugins'' of Arr xs \<Rightarrow> xs | _ \<Rightarrow> [])"

definition seeded :: "world \<Rightarrow> (string \<rightharpoonup> jsval) \<Rightarrow> state \<Rightarrow> state" where
  "seeded w loaded s =
     s\<lparr>store_config := seed_defaults loaded ++ store_config s,
       meta_config :=
         (configs_init w (seed_defaults loaded ++ store_config s))
           (''postDelay'' \<mapsto> Num 0, ''initialPostDelay'' \<mapsto> Num 0,
            ''newbiePostDelay'' \<mapsto> Num 0, ''autoDetectLang'' \<mapsto> Num 0),
       store_privileges := store_privileges s \<union> default_privileges,
       store_plugins := fold add_member (default_plugins (nconf s)) (store_plugins s),
       store_theme := Some (''local'', ''nodebb-theme-persona''),
       trace := trace s @ seed_calls\<rparr>"

definition emptied :: "state \<Rightarrow> state" where
  "emptied s = (db_emptydb s)\<lparr>trace := trace s @ [Await DbEmptydb]\<rparr>"

text \<open>No call to a collaborator fails.\<close>

definition never_rejects :: "world \<Rightarrow> bool" where
  "never_rejects w \<longleftrightarrow> (\<forall>i. \<not> rejects w i)"

text \<open>The directories of the upload set, as the file system sees them.\<close>

definition upload_root :: "world \<Rightarrow> string list" where
  "upload_root w = cwd w @ [''test'', ''uploads'']"

definition upload_dirs :: "world \<Rightarrow> string list list" where
  "upload_dirs w =
     [upload_root w, upload_root w @ [''category''], upload_root w @ [''files''],
      upload_root w @ [''system''], upload_root w @ [''profile'']]"



definition staged :: "world \<Rightarrow> state \<Rightarrow> state" where
  "staged w s =
     s\<lparr>fs := (\<lambda>q. if q \<noteq> [] \<and> prefix q (cwd w @ [''test'']) then Some Dir
                   else if q \<in> set (upload_dirs w) then Some Dir
                   else if prefix (upload_root w) q then None
                   else fs s q),
       trace := trace s @ stage_calls\<rparr>"

text \<open>Nothing on the way to the upload root is a file.\<close>

definition way_clear :: "world \<Rightarrow> state \<Rightarrow> bool" where
  "way_clear w s \<longleftrightarrow> (\<forall>q \<in> set (prefixes (cwd w @ [''test''])). fs s q \<noteq> Some File)"


text \<open>
  In a run from \<open>s\<close> to \<open>s'\<close>, every call but the last one made was not rejected; in a
  run that succeeds, none was.
\<close>

definition orderly :: "world \<Rightarrow> step \<Rightarrow> bool" where
  "orderly w f \<longleftrightarrow>
     (\<forall>s. length (trace s) \<le> length (trace (snd (f s))) \<and>
          (\<forall>i. length (trace s) \<le> i \<and> Suc i < length (trace (snd (f s))) \<longrightarrow> \<not> rejects w i) \<and>
          (fst (f s) = None \<longrightarrow>
             (\<forall>i. length (trace s) \<le> i \<and> i < length (trace (snd (f s))) \<longrightarrow> \<not> rejects w i)))"

text \<open>A step ignores the nconf configuration when it runs the same way whatever it holds.\<close>

definition ignores_nconf :: "step \<Rightarrow> bool" where
  "ignores_nconf f \<longleftrightarrow> (\<forall>s n. f (s\<lparr>nconf := n\<rparr>) = (fst (f s), (snd (f s))\<lparr>nconf := n\<rparr>))"

section \<open>Auxiliary facts\<close>

subsection \<open>Sequencing\<close>

lemma run_steps_Cons_ok:
  "run_steps (f # rest) s = (None, s'') \<longleftrightarrow> (\<exists>s'. f s = (None, s') \<and> run_steps rest s' = (None, s''))"
  by (auto split: prod.splits option.splits)

lemma run_steps_Nil_ok: "run_steps [] s = (None, s') \<longleftrightarrow> s' = s"
  by auto

lemma invoke_ok:
  "invoke w ev effect s = (None, s') \<longleftrightarrow>
     \<not> rejects w (length (trace s)) \<and> effect (s\<lparr>trace := trace s @ [ev]\<rparr>) = Inr s'"
  by (auto simp: invoke_def Let_def split: sum.splits)

lemma local_step_ok: "local_step f s = (None, s') \<longleftrightarrow> f s = Inr s'"
  by (auto simp: local_step_def split: sum.splits)

subsection \<open>Emitted calls\<close>

lemma emits_Nil_run: "emits [] (run_steps [])"
  by (simp add: emits_def)

lemma emits_seq:
  assumes f: "emits xs f" and g: "emits ys (run_steps rest)"
  shows "emits (xs @ ys) (run_steps (f # rest))"
  unfolding emits_def
proof (intro allI conjI impI)
  fix s
  obtain r s' where fs: "f s = (r, s')" by (cases "f s")
  from f obtain n where n: "n \<le> length xs" "trace s' = trace s @ take n xs"
    and ok: "r = None \<longrightarrow> trace s' = trace s @ xs"
    unfolding emits_def using fs by (metis fst_conv snd_conv)
  show "\<exists>n\<le>length (xs @ ys). trace (snd (run_steps (f # rest) s)) = trace s @ take n (xs @ ys)"
  proof (cases r)
    case (Some err)
    then show ?thesis using fs n by (intro exI[of _ n]) simp
  next
    case None
    from g obtain m where m: "m \<le> length ys"
      "trace (snd (run_steps rest s')) = trace s' @ take m ys"
      unfolding emits_def by blast
    show ?thesis using None fs ok m
      by (intro exI[of _ "length xs + m"]) simp
  qed
  assume succ: "fst (run_steps (f # rest) s) = None"
  show "trace (snd (run_steps (f # rest) s)) = trace s @ xs @ ys"
  proof (cases r)
    case (Some err)
    then show ?thesis using succ fs by simp
  next
    case None
    with succ fs have "fst (run_steps rest s') = None" by simp
    with g have "trace (snd (run_steps rest s')) = trace s' @ ys"
      unfolding emits_def by blast
    then show ?thesis using None fs ok by simp
  qed
qed

lemma emits_invoke:
  assumes "\<And>s s'. effect s = Inr s' \<Longrightarrow> trace s' = trace s"
  shows "emits [ev] (invoke w ev effect)"
  unfolding emits_def
proof (intro allI conjI impI)
  fix s
  show "\<exists>n\<le>length [ev]. trace (snd (invoke w ev effect s)) = trace s @ take n [ev]"
    using assms by (intro exI[of _ 1]) (auto simp: invoke_def Let_def split: sum.splits)
  assume "fst (invoke w ev effect s) = None"
  then show "trace (snd (invoke w ev effect s)) = trace s @ [ev]"
    using assms by (auto simp: invoke_def Let_def split: sum.splits if_splits)
qed

lemma emits_local:
  assumes "\<And>s s'. f s = Inr s' \<Longrightarrow> trace s' = trace s"
  shows "emits [] (local_step f)"
  using assms by (auto simp: emits_def local_step_def split: sum.splits)

lemma emits_single: "emits xs f \<Longrightarrow> emits xs (run_steps [f])"
  using emits_seq [OF _ emits_Nil_run, of xs f] by simp

lemma emits_cons:
  "emits [x] f \<Longrightarrow> emits ys (run_steps rest) \<Longrightarrow> emits (x # ys) (run_steps (f # rest))"
  using emits_seq [of "[x]" f ys rest] by simp

lemma emits_skip:
  "emits [] f \<Longrightarrow> emits ys (run_steps rest) \<Longrightarrow> emits ys (run_steps (f # rest))"
  using emits_seq [of "[]" f ys rest] by simp

lemma emits_setupDefaultConfigs: "emits [Await MetaConfigsSetOnEmpty] (setupDefaultConfigs w)"
proof -
  have inv: "emits [Await MetaConfigsSetOnEmpty]
       (invoke w (Await MetaConfigsSetOnEmpty) (\<lambda>s'. Inr (meta_configs_setOnEmpty d s')))" for d
    by (rule emits_invoke) (auto simp: meta_configs_setOnEmpty_def)
  show ?thesis
    unfolding emits_def
  proof
    fix s
    show "(\<exists>n\<le>length [Await MetaConfigsSetOnEmpty].
             trace (snd (setupDefaultConfigs w s)) = trace s @ take n [Await MetaConfigsSetOnEmpty]) \<and>
          (fst (setupDefaultConfigs w s) = None \<longrightarrow>
             trace (snd (setupDefaultConfigs w s)) = trace s @ [Await MetaConfigsSetOnEmpty])"
    proof (cases "path_join [nconf_get (nconf s) ''base_dir'', Str ''install/data/defaults.json'']")
      case (Inl err)
      then show ?thesis by (simp add: setupDefaultConfigs_def)
    next
      case (Inr path)
      show ?thesis
      proof (cases "require_defaults w path")
        case None
        then show ?thesis using Inr by (simp add: setupDefaultConfigs_def)
      next
        case (Some loaded)
        then show ?thesis using Inr inv unfolding emits_def
          by (simp add: setupDefaultConfigs_def Let_def)
      qed
    qed
  qed
qed

lemma emits_giveDefaultGlobalPrivileges:
  "emits [Await (PrivilegesGlobalGive ''registered-users''), Await (PrivilegesGlobalGive ''guests'')]
     (giveDefaultGlobalPrivileges w)"
  unfolding giveDefaultGlobalPrivileges_def
  by (intro emits_cons emits_Nil_run emits_invoke) (auto simp: privileges_global_give_def)

lemma emits_enableDefaultPlugins:
  "emits [Await (DbSortedSetAdd ''plugins:active'')] (enableDefaultPlugins w)"
proof -
  have inv: "emits [Await (DbSortedSetAdd ''plugins:active'')]
       (invoke w (Await (DbSortedSetAdd ''plugins:active'')) (\<lambda>s'. Inr (db_sortedSetAdd d s')))" for d
    by (rule emits_invoke) (auto simp: db_sortedSetAdd_def)
  show ?thesis
    using inv unfolding emits_def enableDefaultPlugins_def Let_def by simp
qed

lemma emits_empty_store: "emits [Await DbEmptydb] (empty_store w)"
  unfolding empty_store_def by (rule emits_invoke) (auto simp: db_emptydb_def)

lemma emits_seed: "emits seed_calls (seed w)"
  unfolding seed_def seed_calls_def
  apply (rule emits_cons [OF emits_setupDefaultConfigs])
  apply (rule emits_cons, rule emits_invoke, force)
  apply (rule emits_skip, rule emits_local, force)+
  apply (rule emits_cons, rule emits_invoke, force)+
  apply (rule emits_seq [OF emits_giveDefaultGlobalPrivileges, simplified])
  apply (rule emits_cons [OF emits_enableDefaultPlugins])
  apply (rule emits_cons, rule emits_invoke, force simp: meta_themes_set_def)
  apply (rule emits_Nil_run)
  done

lemma mkdirp_trace: "mkdirp w p s = Inr s' \<Longrightarrow> trace s' = trace s"
  by (auto simp: mkdirp_def Let_def split: if_splits)

lemma emits_mkdirps:
  "emits (map (\<lambda>folder. Await (Mkdirp folder)) ps)
     (run_steps (map (\<lambda>folder. invoke w (Await (Mkdirp folder)) (mkdirp w folder)) ps))"
proof (induction ps)
  case Nil
  then show ?case by (simp add: emits_def)
next
  case (Cons a ps)
  show ?case
    unfolding list.map
    by (rule emits_cons [OF emits_invoke Cons]) (rule mkdirp_trace)
qed

lemma emits_stage: "emits stage_calls (stage w)"
  unfolding stage_def stage_calls_def
  by (rule emits_cons [OF _ emits_mkdirps], rule emits_invoke) (simp add: fs_rm_def Let_def)

lemma emits_setupMockDefaults: "emits reset_calls (setupMockDefaults w)"
  unfolding setupMockDefaults_def reset_calls_def
  using emits_seq [OF emits_empty_store emits_seq [OF emits_seed emits_single [OF emits_stage]]]
  by simp

subsection \<open>Values and the configuration provider\<close>

lemma get_prop_defined: "v \<noteq> Undefined \<Longrightarrow> v \<noteq> Null \<Longrightarrow> get_prop v k = Inr (member v k)"
  by (cases v) (simp_all add: member_def)

lemma truthy_defined: "truthy v \<Longrightarrow> v \<noteq> Undefined \<and> v \<noteq> Null"
  by (cases v) simp_all

lemma same_field_defined:
  "a \<noteq> Undefined \<Longrightarrow> a \<noteq> Null \<Longrightarrow> b \<noteq> Undefined \<Longrightarrow> b \<noteq> Null \<Longrightarrow>
   same_field a b k = Inr (strict_eq (member a k) (member b k))"
  by (simp add: same_field_def get_prop_defined)


lemma split_on_nonempty: "split_on c s \<noteq> []"
  by (induction s) (auto split: list.splits)

lemma hd_split_on: "hd (split_on c s) = takeWhile (\<lambda>x. x \<noteq> c) s"
  by (induction s) (auto split: list.splits simp: split_on_nonempty)

lemma get_path_set_path_other:
  "p \<noteq> [] \<Longrightarrow> q \<noteq> [] \<Longrightarrow> hd p \<noteq> hd q \<Longrightarrow> get_path p (Obj (set_path q v kvs)) = get_path p (Obj kvs)"
proof (cases p; cases q)
  fix a ps b qs assume "p = a # ps" "q = b # qs" "hd p \<noteq> hd q"
  then show ?thesis
    by (cases qs) (simp_all add: update_conv')
qed auto

lemma nconf_get_set_other:
  "first_segment k \<noteq> first_segment k' \<Longrightarrow> nconf_get (nconf_set k' v n) k = nconf_get n k"
  by (simp add: nconf_get_def nconf_set_def get_path_set_path_other split_on_nonempty hd_split_on
        Let_def first_segment_def cong: jsval.case_cong)

lemma get_path_set_path_same:
  "p \<noteq> [] \<Longrightarrow> get_path p (Obj (set_path p v kvs)) = v"
proof (induction p v kvs rule: set_path.induct)
  case (1 v kvs) then show ?case by simp
next
  case (2 k v kvs) then show ?case by (simp add: update_conv')
next
  case (3 k k' ks v kvs)
  then show ?case by (simp add: update_conv')
qed

lemma nconf_get_set_same:
  "v \<noteq> Undefined \<Longrightarrow> (\<forall>members. v \<noteq> Obj members) \<Longrightarrow> nconf_get (nconf_set k v n) k = v"
  by (cases v)
     (simp_all add: nconf_get_def nconf_set_def get_path_set_path_same split_on_nonempty Let_def)

lemma get_path_absent:
  "p \<noteq> [] \<Longrightarrow> map_of kvs (hd p) = None \<Longrightarrow> get_path p (Obj kvs) = Undefined"
  by (cases p) simp_all

lemma nconf_get_set_new:
  assumes "v \<noteq> Undefined" and "map_of (defaults_store n) (first_segment k) = None"
  shows "nconf_get (nconf_set k v n) k = returned v"
proof -
  have "get_path (split_on (CHR '':'') k) (Obj (defaults_store n)) = Undefined"
    using assms(2) by (simp add: get_path_absent split_on_nonempty hd_split_on first_segment_def)
  then show ?thesis
    using assms(1)
    by (cases v)
       (simp_all add: nconf_get_def nconf_set_def get_path_set_path_same split_on_nonempty Let_def
          returned_def)
qed

lemma defaults_store_nconf_set: "defaults_store (nconf_set k v n) = defaults_store n"
  by (simp add: nconf_set_def)

lemma nconf_get_set_derived:
  assumes "first_segment k \<notin> set derived_keys"
    and "k' \<in> set derived_keys \<or> k' = ''socket.io:origins''"
  shows "nconf_get (nconf_set k' v m) k = nconf_get m k"
proof (rule nconf_get_set_other)
  have "first_segment k' \<in> set derived_keys"
    using assms(2) by (auto simp: derived_keys_def first_segment_def)
  with assms(1) show "first_segment k \<noteq> first_segment k'" by auto
qed

lemma derive_paths_other:
  assumes "derive_paths u n0 = Inr n" and "first_segment k \<notin> set derived_keys"
  shows "nconf_get n k = nconf_get n0 k"
  using assms(1)
  by (auto simp: derive_paths_def Let_def nconf_get_set_derived [OF assms(2)] derived_keys_def
           split: sum.splits)

lemma derive_url_settings_other:
  assumes "first_segment k \<notin> set derived_keys"
  shows "nconf_get (derive_url_settings u n) k = nconf_get n k"
  by (simp add: derive_url_settings_def Let_def nconf_get_set_derived [OF assms] derived_keys_def)

lemma derive_cluster_settings_other:
  assumes "first_segment k \<notin> set derived_keys"
  shows "nconf_get (derive_cluster_settings u n) k = nconf_get n k"
  by (simp add: derive_cluster_settings_def Let_def nconf_get_set_derived [OF assms] derived_keys_def)

lemma derive_settings_other:
  assumes "derive_settings u n0 = Inr n" and "first_segment k \<notin> set derived_keys"
  shows "nconf_get n k = nconf_get n0 k"
  using assms
  by (auto simp: derive_settings_def derive_paths_other derive_url_settings_other
        derive_cluster_settings_other split: sum.splits)

lemma derive_settings_defaults:
  assumes "derive_settings u n0 = Inr n"
  shows "defaults_store n = defaults_store n0"
  using assms
  by (auto simp: derive_settings_def derive_paths_def derive_url_settings_def
        derive_cluster_settings_def Let_def defaults_store_nconf_set split: sum.splits)

lemma path_join_two:
  "(\<exists>r. path_join [a, b] = Inr r) \<longleftrightarrow> (\<exists>x y. a = Str x \<and> b = Str y)"
  by (cases a; cases b) (simp_all add: path_join_def)

lemma derive_paths_succeeds:
  "(\<exists>n. derive_paths u n0 = Inr n) \<longleftrightarrow>
     (\<exists>b p. nconf_get n0 ''base_dir'' = Str b \<and> nconf_get n0 ''upload_path'' = Str p)"
proof -
  have keep: "nconf_get (nconf_set ''asset_base_url'' v (nconf_set ''relative_path'' v' n0)) k = nconf_get n0 k"
    if "k = ''base_dir'' \<or> k = ''upload_path''" for k v v'
    using that by (auto simp: nconf_get_set_other first_segment_def)
  have "(\<exists>n. derive_paths u n0 = Inr n) \<longleftrightarrow>
          (\<exists>r. path_join [nconf_get n0 ''base_dir'', nconf_get n0 ''upload_path''] = Inr r)"
    by (auto simp: derive_paths_def Let_def keep split: sum.splits)
  then show ?thesis by (simp add: path_join_two)
qed

lemma derive_settings_succeeds:
  "(\<exists>n. derive_settings u n0 = Inr n) \<longleftrightarrow> (\<exists>n. derive_paths u n0 = Inr n)"
  by (auto simp: derive_settings_def split: sum.splits)

text \<open>
  The configuration resolves exactly when the file is read and parsed, the URL is a string
  that \<^verbatim>\<open>url.parse\<close> accepts, and \<^verbatim>\<open>base_dir\<close> and \<^verbatim>\<open>upload_path\<close> are strings.
\<close>

lemma resolve_config_succeeds:
  "(\<exists>n. resolve_config e = Inr n) \<longleftrightarrow>
     ((\<exists>kvs. config_json e = Parsed kvs) \<and>
      (\<exists>s u. configured e ''url'' = Str s \<and> url_parse e s = Inr u) \<and>
      (\<exists>b p. configured e ''base_dir'' = Str b \<and> configured e ''upload_path'' = Str p))"
proof (cases "load_config e")
  case (Inl err)
  then show ?thesis
    by (auto simp: resolve_config_def load_config_def split: config_source.splits)
next
  case (Inr n0)
  then have parsed: "\<exists>kvs. config_json e = Parsed kvs"
    by (auto simp: load_config_def split: config_source.splits)
  have conf: "configured e k = nconf_get n0 k" for k
    using Inr by (simp add: configured_def)
  show ?thesis
  proof (cases "js_url_parse e (nconf_get n0 ''url'')")
    case (Inl err)
    then show ?thesis using Inr
      by (auto simp: resolve_config_def conf js_url_parse_def split: jsval.splits)
  next
    case url: (Inr u)
    then have "\<exists>s u. configured e ''url'' = Str s \<and> url_parse e s = Inr u"
      by (auto simp: conf js_url_parse_def split: jsval.splits)
    moreover have "(\<exists>n. resolve_config e = Inr n) \<longleftrightarrow> (\<exists>n. derive_paths u n0 = Inr n)"
      using Inr url by (simp add: resolve_config_def derive_settings_succeeds)
    ultimately show ?thesis
      using parsed by (simp add: derive_paths_succeeds conf)
  qed
qed

lemma resolve_config_other:
  assumes "resolve_config e = Inr n" and "first_segment k \<notin> set derived_keys"
  shows "nconf_get n k = configured e k"
  using assms
  by (auto simp: resolve_config_def configured_def derive_settings_other split: sum.splits)

lemma resolve_config_defaults:
  assumes "resolve_config e = Inr n"
  shows "map fst (defaults_store n) =
           [''base_dir'', ''themes_path'', ''upload_path'', ''views_dir'', ''relative_path'']"
proof -
  from assms obtain n0 u where "load_config e = Inr n0" "derive_settings u n0 = Inr n"
    by (auto simp: resolve_config_def split: sum.splits)
  then show ?thesis
    by (auto simp: derive_settings_defaults load_config_def split: config_source.splits)
qed

lemma resolve_config_targets:
  assumes "resolve_config e = Inr n"
  shows "nconf_get n ''test_database'' = configured e ''test_database''"
    and "nconf_get n ''database'' = configured e ''database''"
    and "nconf_get n ''database.type'' = configured e ''database.type''"
  by (rule resolve_config_other [OF assms], simp add: first_segment_def derived_keys_def)+

lemma environment_guard_agree:
  assumes "truthy t" and "p \<noteq> Undefined" and "p \<noteq> Null"
  shows "environment_guard t p = (if targets_agree t p then Inl unsafe_environment else Inr ())"
proof -
  from assms(1) have t: "t \<noteq> Undefined" "t \<noteq> Null"
    using truthy_defined by blast+
  show ?thesis
    by (auto simp add: environment_guard_def same_field_defined t assms(2,3) targets_agree_def
             unsafe_environment_def split: bool.splits)
qed

subsection \<open>The concrete installation\<close>

lemmas evaluate_config =
  load_config_def example_env_def example_config_def example_url_parse_def nconf_get_def
  common_merge_def
  Let_def path_join_strings_def path_normalize_def normalize_segments_def norm_step_def
  configured_def

lemma example_configured:
  "configured (example_env (example_config i)) ''test_database'' = example_target i"
  "configured (example_env (example_config i)) ''database'' = example_target 0"
  "configured (example_env (example_config i)) ''database.type'' = Str ''redis''"
  "configured (example_env (example_config i)) ''url'' = Str ''http://127.0.0.1:4567''"
  "configured (example_env (example_config i)) ''base_dir'' = Str ''/repo''"
  "configured (example_env (example_config i)) ''upload_path'' = Str ''test/uploads''"
  by (simp_all add: evaluate_config example_target_def)

lemma example_resolves: "\<exists>n. resolve_config (example_env (example_config i)) = Inr n"
  unfolding resolve_config_succeeds example_configured
  by (simp add: example_env_def example_url_parse_def)


subsection \<open>Loading the module\<close>

lemma load_module_Inr:
  assumes "load_module e = Inr n"
  shows "\<exists>m. resolve_config e = Inr m \<and> truthy (configured e ''test_database'') \<and>
             environment_guard (configured e ''test_database'') (configured e ''database'') = Inr () \<and>
             n = nconf_set (engine_key e) (configured e ''test_database'') m"
proof -
  from assms obtain m where m: "resolve_config e = Inr m"
    by (auto simp: load_module_def split: sum.splits)
  note vals = resolve_config_targets [OF m]
  from assms m show ?thesis
    by (auto simp: load_module_def Let_def vals require_test_database_def engine_key_def
             split: sum.splits if_splits)
qed

lemma load_module_unresolved:
  assumes "resolve_config e = Inl err"
  shows "load_module e = Inl err"
  using assms by (simp add: load_module_def)

lemma load_module_resolved:
  assumes "resolve_config e = Inr m"
  shows "load_module e =
     (if \<not> truthy (configured e ''test_database'')
      then Inl (Error ''Test database is not defined in config.json'')
      else case environment_guard (configured e ''test_database'') (configured e ''database'') of
             Inl err \<Rightarrow> Inl err
           | Inr _ \<Rightarrow> Inr (nconf_set (engine_key e) (configured e ''test_database'') m))"
  unfolding engine_key_def
  using assms resolve_config_targets [OF assms]
  by (simp add: load_module_def Let_def require_test_database_def)

lemma engine_key_not_database: "first_segment ''database'' \<noteq> first_segment (engine_key e)"
  by (simp add: engine_key_def first_segment_def)

lemma engine_key_not_hook_key: "first_segment (engine_key e) \<notin> set hook_keys"
  by (simp add: engine_key_def first_segment_def hook_keys_def)

lemma database_not_hook_key: "first_segment ''database'' \<notin> set hook_keys"
  by (simp add: first_segment_def hook_keys_def)

lemma engine_key_not_default:
  assumes "resolve_config e = Inr m"
  shows "map_of (defaults_store m) (first_segment (engine_key e)) = None"
proof -
  have "first_segment (engine_key e) \<notin> set (map fst (defaults_store m))"
    unfolding resolve_config_defaults [OF assms]
    by (simp add: engine_key_def first_segment_def)
  then show ?thesis by (simp add: map_of_eq_None_iff)
qed

lemma loaded_engine_key:
  assumes "load_module e = Inr n"
  shows "nconf_get n (engine_key e) = returned (configured e ''test_database'')"
proof -
  from load_module_Inr [OF assms] obtain m where
    m: "resolve_config e = Inr m" "truthy (configured e ''test_database'')"
       "n = nconf_set (engine_key e) (configured e ''test_database'') m"
    by blast
  from m(2) have "configured e ''test_database'' \<noteq> Undefined"
    using truthy_defined by blast
  then show ?thesis
    by (simp add: m(3) nconf_get_set_new engine_key_not_default [OF m(1)])
qed

lemma loaded_database:
  assumes "load_module e = Inr n"
  shows "nconf_get n ''database'' = configured e ''database''"
proof -
  from load_module_Inr [OF assms] obtain m where
    m: "resolve_config e = Inr m" "n = nconf_set (engine_key e) (configured e ''test_database'') m"
    by blast
  show ?thesis
    by (simp add: m(2) nconf_get_set_other [OF engine_key_not_database] resolve_config_targets [OF m(1)])
qed

lemma bootstrap_not_loaded:
  assumes "load_module e = Inl err"
  shows "bootstrap e w s = (Some err, s)"
  using assms by (simp add: bootstrap_def)

subsection \<open>What steps do to the nconf configuration\<close>

lemma keeps_nconf_invoke:
  assumes "\<And>s s'. effect s = Inr s' \<Longrightarrow> nconf s' = nconf s"
  shows "keeps_nconf (invoke w ev effect)"
  unfolding keeps_nconf_def
proof
  fix s
  show "nconf (snd (invoke w ev effect s)) = nconf s"
  proof (cases "rejects w (length (trace s))")
    case True
    then show ?thesis by (simp add: invoke_def)
  next
    case False
    show ?thesis
    proof (cases "effect (s\<lparr>trace := trace s @ [ev]\<rparr>)")
      case (Inl err)
      then show ?thesis using False by (simp add: invoke_def)
    next
      case (Inr s2)
      from assms [OF Inr] show ?thesis using False Inr by (simp add: invoke_def)
    qed
  qed
qed

lemma keeps_nconf_local:
  assumes "\<And>s s'. f s = Inr s' \<Longrightarrow> nconf s' = nconf s"
  shows "keeps_nconf (local_step f)"
  using assms by (auto simp: keeps_nconf_def local_step_def split: sum.splits)

lemma keeps_nconf_Nil: "keeps_nconf (run_steps [])"
  by (simp add: keeps_nconf_def)

lemma keeps_nconf_Cons:
  assumes "keeps_nconf f" and "keeps_nconf (run_steps rest)"
  shows "keeps_nconf (run_steps (f # rest))"
  unfolding keeps_nconf_def
proof
  fix s
  obtain r s' where fs: "f s = (r, s')" by (cases "f s")
  from assms(1) have "nconf (snd (f s)) = nconf s"
    unfolding keeps_nconf_def by blast
  with fs have "nconf s' = nconf s" by simp
  moreover from assms(2) have "nconf (snd (run_steps rest s')) = nconf s'"
    unfolding keeps_nconf_def by blast
  ultimately show "nconf (snd (run_steps (f # rest) s)) = nconf s"
    using fs by (cases r) simp_all
qed

lemma keeps_nconf_setupDefaultConfigs: "keeps_nconf (setupDefaultConfigs w)"
proof -
  have inv: "keeps_nconf (invoke w (Await MetaConfigsSetOnEmpty) (\<lambda>s'. Inr (meta_configs_setOnEmpty d s')))" for d
    by (rule keeps_nconf_invoke) (auto simp: meta_configs_setOnEmpty_def)
  show ?thesis
    unfolding keeps_nconf_def
  proof
    fix s
    show "nconf (snd (setupDefaultConfigs w s)) = nconf s"
    proof (cases "path_join [nconf_get (nconf s) ''base_dir'', Str ''install/data/defaults.json'']")
      case (Inl err)
      then show ?thesis by (simp add: setupDefaultConfigs_def)
    next
      case (Inr path)
      show ?thesis
      proof (cases "require_defaults w path")
        case None
        then show ?thesis using Inr by (simp add: setupDefaultConfigs_def)
      next
        case (Some loaded)
        then show ?thesis using Inr inv unfolding keeps_nconf_def
          by (simp add: setupDefaultConfigs_def Let_def)
      qed
    qed
  qed
qed

lemma keeps_nconf_giveDefaultGlobalPrivileges: "keeps_nconf (giveDefaultGlobalPrivileges w)"
  unfolding giveDefaultGlobalPrivileges_def
  by (intro keeps_nconf_Cons keeps_nconf_Nil keeps_nconf_invoke) (auto simp: privileges_global_give_def)

lemma keeps_nconf_enableDefaultPlugins: "keeps_nconf (enableDefaultPlugins w)"
proof -
  have inv: "keeps_nconf (invoke w (Await (DbSortedSetAdd ''plugins:active'')) (\<lambda>s'. Inr (db_sortedSetAdd d s')))" for d
    by (rule keeps_nconf_invoke) (auto simp: db_sortedSetAdd_def)
  show ?thesis
    using inv unfolding keeps_nconf_def enableDefaultPlugins_def Let_def by simp
qed

lemma keeps_nconf_empty_store: "keeps_nconf (empty_store w)"
  unfolding empty_store_def by (rule keeps_nconf_invoke) (auto simp: db_emptydb_def)

lemma keeps_nconf_seed: "keeps_nconf (seed w)"
  unfolding seed_def
  apply (rule keeps_nconf_Cons [OF keeps_nconf_setupDefaultConfigs])
  apply (rule keeps_nconf_Cons, rule keeps_nconf_invoke, force)
  apply (rule keeps_nconf_Cons, rule keeps_nconf_local, force)+
  apply (rule keeps_nconf_Cons, rule keeps_nconf_invoke, force)+
  apply (rule keeps_nconf_Cons [OF keeps_nconf_giveDefaultGlobalPrivileges])
  apply (rule keeps_nconf_Cons [OF keeps_nconf_enableDefaultPlugins])
  apply (rule keeps_nconf_Cons, rule keeps_nconf_invoke, force simp: meta_themes_set_def)
  apply (rule keeps_nconf_Nil)
  done

lemma mkdirp_nconf: "mkdirp w p s = Inr s' \<Longrightarrow> nconf s' = nconf s"
  by (auto simp: mkdirp_def Let_def split: if_splits)

lemma keeps_nconf_mkdirps:
  "keeps_nconf (run_steps (map (\<lambda>folder. invoke w (Await (Mkdirp folder)) (mkdirp w folder)) ps))"
proof (induction ps)
  case Nil
  then show ?case by (simp add: keeps_nconf_def)
next
  case (Cons a ps)
  show ?case
    unfolding list.map
    by (rule keeps_nconf_Cons [OF keeps_nconf_invoke Cons]) (rule mkdirp_nconf)
qed

lemma keeps_nconf_stage: "keeps_nconf (stage w)"
  unfolding stage_def
  by (rule keeps_nconf_Cons [OF _ keeps_nconf_mkdirps], rule keeps_nconf_invoke)
     (simp add: fs_rm_def Let_def)

lemma keeps_nconf_setupMockDefaults: "keeps_nconf (setupMockDefaults w)"
  unfolding setupMockDefaults_def
  by (intro keeps_nconf_Cons keeps_nconf_Nil keeps_nconf_empty_store keeps_nconf_seed keeps_nconf_stage)

lemma preserves_keeps: "keeps_nconf f \<Longrightarrow> preserves P f"
  by (simp add: keeps_nconf_def preserves_def)

lemma preserves_Nil: "preserves P (run_steps [])"
  by (simp add: preserves_def)

lemma preserves_Cons:
  assumes "preserves P f" and "preserves P (run_steps rest)"
  shows "preserves P (run_steps (f # rest))"
  unfolding preserves_def
proof (intro allI impI)
  fix s :: state
  assume P: "P (nconf s)"
  obtain r s' where fs: "f s = (r, s')" by (cases "f s")
  from assms(1) P have "P (nconf (snd (f s)))"
    unfolding preserves_def by blast
  with fs have "P (nconf s')" by simp
  moreover from assms(2) this have "P (nconf (snd (run_steps rest s')))"
    unfolding preserves_def by blast
  ultimately show "P (nconf (snd (run_steps (f # rest) s)))"
    using fs by (cases r) simp_all
qed

lemma preserves_local:
  assumes "\<And>s s'. f s = Inr s' \<Longrightarrow> P (nconf s) \<Longrightarrow> P (nconf s')"
  shows "preserves P (local_step f)"
  using assms by (auto simp: preserves_def local_step_def split: sum.splits)

lemma nconf_get_set_hook:
  assumes "first_segment k \<notin> set hook_keys"
    and "k' \<in> set hook_keys \<or> k' = ''socket.io:origins''"
  shows "nconf_get (nconf_set k' v m) k = nconf_get m k"
proof (rule nconf_get_set_other)
  have "first_segment k' \<in> set hook_keys"
    using assms(2) by (auto simp: hook_keys_def first_segment_def)
  with assms(1) show "first_segment k \<noteq> first_segment k'" by auto
qed

lemma hook_settings_other:
  assumes "hook_settings e w s = Inr s'" and "first_segment k \<notin> set hook_keys"
  shows "nconf_get (nconf s') k = nconf_get (nconf s) k"
  using assms(1)
  by (auto simp: hook_settings_def Let_def nconf_get_set_hook [OF assms(2)] hook_keys_def
           split: sum.splits)

lemma theme_templates_setting_other:
  assumes "theme_templates_setting s = Inr s'" and "first_segment k \<notin> set hook_keys"
  shows "nconf_get (nconf s') k = nconf_get (nconf s) k"
  using assms(1)
  by (auto simp: theme_templates_setting_def Let_def nconf_get_set_hook [OF assms(2)] hook_keys_def
           split: sum.splits if_splits)

lemma session_key_setting_other:
  assumes "session_key_setting s = Inr s'" and "first_segment k \<notin> set hook_keys"
  shows "nconf_get (nconf s') k = nconf_get (nconf s) k"
  using assms(1)
  by (auto simp: session_key_setting_def nconf_get_set_hook [OF assms(2)] hook_keys_def
           split: if_splits)

lemma preserves_before_hook:
  assumes "first_segment k \<notin> set hook_keys"
  shows "preserves (\<lambda>n. nconf_get n k = v) (before_hook e w)"
  unfolding before_hook_def
  apply (rule preserves_Cons, rule preserves_local, simp add: hook_settings_other [OF _ assms])
  apply (rule preserves_Cons, rule preserves_keeps, rule keeps_nconf_invoke, force)
  apply (rule preserves_Cons, rule preserves_keeps)
   apply (simp add: keeps_nconf_def create_indices_def invoke_def Let_def)
  apply (rule preserves_Cons, rule preserves_keeps, rule keeps_nconf_setupMockDefaults)
  apply (rule preserves_Cons, rule preserves_keeps, rule keeps_nconf_invoke, force)
  apply (rule preserves_Cons, rule preserves_local, simp add: theme_templates_setting_other [OF _ assms])
  apply (rule preserves_Cons, rule preserves_local, simp add: session_key_setting_other [OF _ assms])
  apply (rule preserves_Cons, rule preserves_keeps, rule keeps_nconf_invoke, force)+
  apply (rule preserves_Cons, rule preserves_local, simp add: register_reset_def)
  apply (rule preserves_Nil)
  done

lemma bootstrap_keeps_key:
  assumes "load_module e = Inr n" and "first_segment k \<notin> set hook_keys"
  shows "nconf_get (nconf (snd (bootstrap e w s))) k = nconf_get n k"
  using preserves_before_hook [OF assms(2), of "nconf_get n k" e w] assms(1)
  by (simp add: bootstrap_def preserves_def)

subsection \<open>Complete runs\<close>

lemma empty_store_ok:
  "empty_store w s = (None, s') \<Longrightarrow> s' = emptied s"
  by (auto simp: empty_store_def invoke_ok emptied_def db_emptydb_def)

lemma empty_store_succeeds:
  "never_rejects w \<Longrightarrow> empty_store w s = (None, emptied s)"
  by (simp add: empty_store_def invoke_ok emptied_def db_emptydb_def never_rejects_def)

lemma setupDefaultConfigs_ok:
  assumes "setupDefaultConfigs w s = (None, s')"
  shows "\<exists>path loaded. defaults_file s = Inr path \<and> require_defaults w path = Some loaded \<and>
           s' = s\<lparr>store_config := seed_defaults loaded ++ store_config s,
                  trace := trace s @ [Await MetaConfigsSetOnEmpty]\<rparr>"
  using assms
  by (auto simp: setupDefaultConfigs_def defaults_file_def invoke_ok Let_def seed_defaults_def
        meta_configs_setOnEmpty_def split: sum.splits option.splits)

lemma setupDefaultConfigs_succeeds:
  assumes "never_rejects w" and "defaults_file s = Inr path" and "require_defaults w path = Some loaded"
  shows "setupDefaultConfigs w s =
           (None, s\<lparr>store_config := seed_defaults loaded ++ store_config s,
                     trace := trace s @ [Await MetaConfigsSetOnEmpty]\<rparr>)"
  using assms
  by (simp add: setupDefaultConfigs_def defaults_file_def invoke_ok Let_def seed_defaults_def
        meta_configs_setOnEmpty_def never_rejects_def)

lemma giveDefaultGlobalPrivileges_ok:
  assumes "giveDefaultGlobalPrivileges w s = (None, s')"
  shows "s' = s\<lparr>store_privileges := store_privileges s \<union> default_privileges,
                trace := trace s @ [Await (PrivilegesGlobalGive ''registered-users''),
                                    Await (PrivilegesGlobalGive ''guests'')]\<rparr>"
  using assms
  by (auto simp: giveDefaultGlobalPrivileges_def run_steps_Cons_ok run_steps_Nil_ok invoke_ok
        privileges_global_give_def default_privileges_def Un_assoc simp del: run_steps.simps)

lemma giveDefaultGlobalPrivileges_succeeds:
  assumes "never_rejects w"
  shows "giveDefaultGlobalPrivileges w s =
     (None, s\<lparr>store_privileges := store_privileges s \<union> default_privileges,
                trace := trace s @ [Await (PrivilegesGlobalGive ''registered-users''),
                                    Await (PrivilegesGlobalGive ''guests'')]\<rparr>)"
  using assms
  by (auto simp add: giveDefaultGlobalPrivileges_def run_steps_Cons_ok run_steps_Nil_ok invoke_ok
        privileges_global_give_def default_privileges_def Un_assoc never_rejects_def
        simp del: run_steps.simps)

lemma enableDefaultPlugins_ok:
  assumes "enableDefaultPlugins w s = (None, s')"
  shows "s' = s\<lparr>store_plugins := fold add_member (default_plugins (nconf s)) (store_plugins s),
                trace := trace s @ [Await (DbSortedSetAdd ''plugins:active'')]\<rparr>"
  using assms
  by (auto simp: enableDefaultPlugins_def invoke_ok Let_def db_sortedSetAdd_def default_plugins_def)

lemma enableDefaultPlugins_succeeds:
  assumes "never_rejects w"
  shows "enableDefaultPlugins w s =
     (None, s\<lparr>store_plugins := fold add_member (default_plugins (nconf s)) (store_plugins s),
                trace := trace s @ [Await (DbSortedSetAdd ''plugins:active'')]\<rparr>)"
  using assms
  by (simp add: enableDefaultPlugins_def invoke_ok Let_def db_sortedSetAdd_def default_plugins_def
        never_rejects_def)

lemma seed_ok:
  assumes "seed w s = (None, s')"
  shows "\<exists>path loaded. defaults_file s = Inr path \<and> require_defaults w path = Some loaded \<and>
           s' = seeded w loaded s"
proof -
  from assms obtain s1 where s1: "setupDefaultConfigs w s = (None, s1)"
    by (auto simp: seed_def run_steps_Cons_ok simp del: run_steps.simps)
  from setupDefaultConfigs_ok [OF s1] obtain path loaded where
    d: "defaults_file s = Inr path" "require_defaults w path = Some loaded"
    and s1_eq: "s1 = s\<lparr>store_config := seed_defaults loaded ++ store_config s,
                  trace := trace s @ [Await MetaConfigsSetOnEmpty]\<rparr>"
    by blast
  have "s' = seeded w loaded s"
    using assms s1 unfolding seed_def
    by (auto simp: run_steps_Cons_ok run_steps_Nil_ok invoke_ok local_step_ok s1_eq seeded_def
          seed_calls_def meta_themes_set_def simp del: run_steps.simps
          dest!: giveDefaultGlobalPrivileges_ok enableDefaultPlugins_ok)
  with d show ?thesis by blast
qed

lemma seed_succeeds:
  assumes "never_rejects w" and "defaults_file s = Inr path" and "require_defaults w path = Some loaded"
  shows "seed w s = (None, seeded w loaded s)"
  unfolding seed_def
  using assms(1)
  by (simp add: run_steps_Cons_ok run_steps_Nil_ok invoke_ok local_step_ok seeded_def
        seed_calls_def meta_themes_set_def setupDefaultConfigs_succeeds [OF assms]
        giveDefaultGlobalPrivileges_succeeds enableDefaultPlugins_succeeds never_rejects_def
        del: run_steps.simps)

lemma resolve_folders:
  "resolve_path c ''test/uploads'' = c @ [''test'', ''uploads'']"
  "resolve_path c ''test/uploads/category'' = c @ [''test'', ''uploads'', ''category'']"
  "resolve_path c ''test/uploads/files'' = c @ [''test'', ''uploads'', ''files'']"
  "resolve_path c ''test/uploads/system'' = c @ [''test'', ''uploads'', ''system'']"
  "resolve_path c ''test/uploads/profile'' = c @ [''test'', ''uploads'', ''profile'']"
  by (simp_all add: resolve_path_def normalize_segments_def norm_step_def)

lemma upload_dirs_resolved: "upload_dirs w = map (resolve_path (cwd w)) folders"
  by (simp add: upload_dirs_def folders_def resolve_folders upload_root_def)

lemma prefix_two: "prefix q (c @ [a, b]) \<longleftrightarrow> prefix q (c @ [a]) \<or> q = c @ [a, b]"
  using prefix_snoc [of q "c @ [a]" b] by auto

lemma prefix_three:
  "prefix q (c @ [a, b, x]) \<longleftrightarrow> prefix q (c @ [a]) \<or> q = c @ [a, b] \<or> q = c @ [a, b, x]"
  using prefix_snoc [of q "c @ [a, b]" x] prefix_two [of q c a b] by auto

lemma mkdirp_ok:
  "mkdirp w p s = Inr s' \<longleftrightarrow>
     (\<forall>q. prefix q (resolve_path (cwd w) p) \<longrightarrow> fs s q \<noteq> Some File) \<and>
     s' = s\<lparr>fs := (\<lambda>q. if q \<noteq> [] \<and> prefix q (resolve_path (cwd w) p) then Some Dir else fs s q)\<rparr>"
  by (auto simp: mkdirp_def Let_def)

lemma stage_chain:
  "stage w s = (None, s') \<longleftrightarrow>
     (\<exists>s1 s2 s3 s4 s5.
        invoke w (Await (FsRm ''test/uploads'')) (\<lambda>s. Inr (fs_rm w ''test/uploads'' s)) s = (None, s1) \<and>
        invoke w (Await (Mkdirp ''test/uploads'')) (mkdirp w ''test/uploads'') s1 = (None, s2) \<and>
        invoke w (Await (Mkdirp ''test/uploads/category'')) (mkdirp w ''test/uploads/category'') s2 = (None, s3) \<and>
        invoke w (Await (Mkdirp ''test/uploads/files'')) (mkdirp w ''test/uploads/files'') s3 = (None, s4) \<and>
        invoke w (Await (Mkdirp ''test/uploads/system'')) (mkdirp w ''test/uploads/system'') s4 = (None, s5) \<and>
        invoke w (Await (Mkdirp ''test/uploads/profile'')) (mkdirp w ''test/uploads/profile'') s5 = (None, s'))"
  unfolding stage_def folders_def list.map
  by (simp add: run_steps_Cons_ok run_steps_Nil_ok del: run_steps.simps)

lemma stage_fs_eq:
  fixes f :: "string list \<rightharpoonup> node" and c :: "string list"
  defines "R \<equiv> c @ [''test'', ''uploads'']"
  shows "(\<lambda>q. if q \<noteq> [] \<and> prefix q (R @ [''profile'']) then Some Dir
              else if q \<noteq> [] \<and> prefix q (R @ [''system'']) then Some Dir
              else if q \<noteq> [] \<and> prefix q (R @ [''files'']) then Some Dir
              else if q \<noteq> [] \<and> prefix q (R @ [''category'']) then Some Dir
              else if q \<noteq> [] \<and> prefix q R then Some Dir
              else if prefix R q then None else f q)
         = (\<lambda>q. if q \<noteq> [] \<and> prefix q (c @ [''test'']) then Some Dir
              else if q \<in> {R, R @ [''category''], R @ [''files''], R @ [''system''], R @ [''profile'']} then Some Dir
              else if prefix R q then None
              else f q)"
  unfolding R_def
  by (rule ext) (auto simp: prefix_three prefix_two)

lemma stage_ok:
  assumes "stage w s = (None, s')"
  shows "s' = staged w s \<and> way_clear w s"
proof -
  let ?c = "cwd w"
  let ?R = "?c @ [''test'', ''uploads'']"
  from assms obtain s1 s2 s3 s4 s5 where
    1: "s1 = fs_rm w ''test/uploads'' (s\<lparr>trace := trace s @ [Await (FsRm ''test/uploads'')]\<rparr>)" and
    2: "mkdirp w ''test/uploads'' (s1\<lparr>trace := trace s1 @ [Await (Mkdirp ''test/uploads'')]\<rparr>) = Inr s2" and
    3: "mkdirp w ''test/uploads/category'' (s2\<lparr>trace := trace s2 @ [Await (Mkdirp ''test/uploads/category'')]\<rparr>) = Inr s3" and
    4: "mkdirp w ''test/uploads/files'' (s3\<lparr>trace := trace s3 @ [Await (Mkdirp ''test/uploads/files'')]\<rparr>) = Inr s4" and
    5: "mkdirp w ''test/uploads/system'' (s4\<lparr>trace := trace s4 @ [Await (Mkdirp ''test/uploads/system'')]\<rparr>) = Inr s5" and
    6: "mkdirp w ''test/uploads/profile'' (s5\<lparr>trace := trace s5 @ [Await (Mkdirp ''test/uploads/profile'')]\<rparr>) = Inr s'"
    unfolding stage_chain invoke_ok by auto
  have fs1: "fs s1 = (\<lambda>q. if prefix ?R q then None else fs s q)"
    and tr1: "trace s1 = trace s @ [Await (FsRm ''test/uploads'')]"
    by (simp_all add: 1 fs_rm_def resolve_folders cong: if_cong)
  from 2 have clear: "\<forall>q. prefix q ?R \<longrightarrow> fs s1 q \<noteq> Some File"
    by (simp add: mkdirp_ok resolve_folders)
  have "way_clear w s"
    unfolding way_clear_def
  proof
    fix q assume "q \<in> set (prefixes (?c @ [''test'']))"
    then have q: "prefix q (?c @ [''test''])" by simp
    then have "prefix q ?R" by (simp add: prefix_two)
    with clear have "fs s1 q \<noteq> Some File" by blast
    moreover have "\<not> prefix ?R q"
    proof
      assume "prefix ?R q"
      with q have "prefix ?R (?c @ [''test''])" using prefix_order.trans by blast
      then show False by (auto simp: prefix_def)
    qed
    ultimately show "fs s q \<noteq> Some File" by (simp add: fs1)
  qed
  moreover have "s' = staged w s"
  proof -
    have "s' = s\<lparr>fs := (\<lambda>q. if q \<noteq> [] \<and> prefix q (?R @ [''profile'']) then Some Dir
              else if q \<noteq> [] \<and> prefix q (?R @ [''system'']) then Some Dir
              else if q \<noteq> [] \<and> prefix q (?R @ [''files'']) then Some Dir
              else if q \<noteq> [] \<and> prefix q (?R @ [''category'']) then Some Dir
              else if q \<noteq> [] \<and> prefix q ?R then Some Dir
              else if prefix ?R q then None else fs s q),
            trace := trace s @ stage_calls\<rparr>"
      using 2 3 4 5 6
      by (auto simp: mkdirp_ok resolve_folders 1 fs_rm_def stage_calls_def folders_def cong: if_cong)
    then show ?thesis
      unfolding staged_def upload_dirs_def upload_root_def
      by (simp only: stage_fs_eq list.set insert_is_Un[symmetric])
  qed
  ultimately show ?thesis by blast
qed

lemma stage_succeeds:
  assumes "never_rejects w" and "way_clear w s"
  shows "stage w s = (None, staged w s)"
proof -
  have clear: "fs s q \<noteq> Some File" if "prefix q (cwd w @ [''test''])" for q
    using assms(2) that by (auto simp: way_clear_def)
  have "\<exists>s'. stage w s = (None, s')"
    using assms(1) clear
    by (auto simp: stage_chain invoke_ok mkdirp_ok never_rejects_def resolve_folders fs_rm_def
          prefix_two prefix_three cong: if_cong)
  then show ?thesis
    using stage_ok by blast
qed

lemma emptied_fields:
  "nconf (emptied s) = nconf s" "fs (emptied s) = fs s" "trace (emptied s) = trace s @ [Await DbEmptydb]"
  "store_config (emptied s) = Map.empty" "store_privileges (emptied s) = {}"
  "store_plugins (emptied s) = []" "store_records (emptied s) = Map.empty"
  "store_theme (emptied s) = None" "reset_hooks (emptied s) = reset_hooks s"
  by (simp_all add: emptied_def db_emptydb_def)

lemma seeded_fields:
  "nconf (seeded w loaded s) = nconf s" "fs (seeded w loaded s) = fs s"
  "trace (seeded w loaded s) = trace s @ seed_calls"
  "store_config (seeded w loaded s) = seed_defaults loaded ++ store_config s"
  "store_privileges (seeded w loaded s) = store_privileges s \<union> default_privileges"
  "store_plugins (seeded w loaded s) = fold add_member (default_plugins (nconf s)) (store_plugins s)"
  "store_theme (seeded w loaded s) = Some (''local'', ''nodebb-theme-persona'')"
  "store_records (seeded w loaded s) = store_records s"
  "reset_hooks (seeded w loaded s) = reset_hooks s"
  "meta_config (seeded w loaded s) =
     (configs_init w (seed_defaults loaded ++ store_config s))
       (''postDelay'' \<mapsto> Num 0, ''initialPostDelay'' \<mapsto> Num 0,
        ''newbiePostDelay'' \<mapsto> Num 0, ''autoDetectLang'' \<mapsto> Num 0)"
  by (simp_all add: seeded_def)

lemma staged_fields:
  "nconf (staged w s) = nconf s" "trace (staged w s) = trace s @ stage_calls"
  "store_config (staged w s) = store_config s" "store_privileges (staged w s) = store_privileges s"
  "store_plugins (staged w s) = store_plugins s" "store_theme (staged w s) = store_theme s"
  "store_records (staged w s) = store_records s" "meta_config (staged w s) = meta_config s"
  "reset_hooks (staged w s) = reset_hooks s"
  by (simp_all add: staged_def)

lemma defaults_file_cong: "nconf s' = nconf s \<Longrightarrow> defaults_file s' = defaults_file s"
  by (simp add: defaults_file_def)

lemma way_clear_cong: "fs s' = fs s \<Longrightarrow> way_clear w s' = way_clear w s"
  by (simp add: way_clear_def)

lemma setupMockDefaults_ok:
  assumes "setupMockDefaults w s = (None, s')"
  shows "\<exists>path loaded. defaults_file s = Inr path \<and> require_defaults w path = Some loaded \<and>
           way_clear w s \<and> s' = staged w (seeded w loaded (emptied s))"
proof -
  from assms obtain s1 s2 where
    1: "empty_store w s = (None, s1)" and 2: "seed w s1 = (None, s2)" and 3: "stage w s2 = (None, s')"
    unfolding setupMockDefaults_def
    by (auto simp: run_steps_Cons_ok run_steps_Nil_ok simp del: run_steps.simps)
  from empty_store_ok [OF 1] have s1: "s1 = emptied s" .
  from seed_ok [OF 2] obtain path loaded where
    d: "defaults_file s1 = Inr path" "require_defaults w path = Some loaded"
    and s2: "s2 = seeded w loaded s1"
    by blast
  from stage_ok [OF 3] have s': "s' = staged w s2" and clear: "way_clear w s2" by blast+
  have "defaults_file s = Inr path"
    using d(1) defaults_file_cong [of s1 s] by (simp add: s1 emptied_fields)
  moreover have "way_clear w s"
    using clear way_clear_cong [of s2 s w] by (simp add: s1 s2 emptied_fields seeded_fields)
  ultimately show ?thesis
    using d(2) s' s2 s1 by blast
qed

lemma setupMockDefaults_succeeds:
  assumes "never_rejects w" and "defaults_file s = Inr path"
    and "require_defaults w path = Some loaded" and "way_clear w s"
  shows "setupMockDefaults w s = (None, staged w (seeded w loaded (emptied s)))"
proof -
  have 1: "empty_store w s = (None, emptied s)"
    using assms(1) by (rule empty_store_succeeds)
  have "defaults_file (emptied s) = Inr path"
    using assms(2) defaults_file_cong [of "emptied s" s] by (simp add: emptied_fields)
  then have 2: "seed w (emptied s) = (None, seeded w loaded (emptied s))"
    using assms(1,3) seed_succeeds by blast
  have "way_clear w (seeded w loaded (emptied s))"
    using assms(4) way_clear_cong [of "seeded w loaded (emptied s)" s w]
    by (simp add: emptied_fields seeded_fields)
  then have 3: "stage w (seeded w loaded (emptied s)) = (None, staged w (seeded w loaded (emptied s)))"
    using assms(1) stage_succeeds by blast
  show ?thesis
    unfolding setupMockDefaults_def
    using 1 2 3 by (simp add: run_steps_Cons_ok run_steps_Nil_ok del: run_steps.simps)
qed


subsection \<open>The calls of the hook\<close>

lemma emits_create_indices:
  "emits (if createIndices_defined w then [Await DbCreateIndices] else []) (create_indices w)"
proof (cases "createIndices_defined w")
  case True
  have "emits [Await DbCreateIndices] (invoke w (Await DbCreateIndices) Inr)"
    by (rule emits_invoke) simp
  then show ?thesis using True by (simp add: emits_def create_indices_def)
next
  case False
  then show ?thesis by (simp add: emits_def create_indices_def)
qed

lemma hook_settings_trace: "hook_settings e w s = Inr s' \<Longrightarrow> trace s' = trace s"
  by (auto simp: hook_settings_def Let_def split: sum.splits)

lemma theme_templates_setting_trace: "theme_templates_setting s = Inr s' \<Longrightarrow> trace s' = trace s"
  by (auto simp: theme_templates_setting_def Let_def split: sum.splits if_splits)

lemma session_key_setting_trace: "session_key_setting s = Inr s' \<Longrightarrow> trace s' = trace s"
  by (auto simp: session_key_setting_def split: if_splits)

lemma emits_services:
  "emits service_calls
     (run_steps
       [invoke w (Await DbInitSessionStore) Inr,
        local_step theme_templates_setting,
        local_step session_key_setting,
        invoke w (Await MetaDependenciesCheck) Inr,
        invoke w (Await SocketsInit) Inr,
        invoke w (Plain NotificationsStartJobs) Inr,
        invoke w (Plain UserStartJobs) Inr,
        invoke w (Await WebserverListen) Inr,
        local_step (register_reset w)])"
  unfolding service_calls_def
  apply (rule emits_cons, rule emits_invoke, force)
  apply (rule emits_skip, rule emits_local, erule theme_templates_setting_trace)
  apply (rule emits_skip, rule emits_local, erule session_key_setting_trace)
  apply (rule emits_cons, rule emits_invoke, force)+
  apply (rule emits_skip, rule emits_local, force simp: register_reset_def)
  apply (rule emits_Nil_run)
  done

lemma emits_before_hook: "emits (hook_calls w) (before_hook e w)"
proof -
  have 1: "emits ([] @ [Await DbInit] @ (if createIndices_defined w then [Await DbCreateIndices] else [])
              @ reset_calls @ service_calls) (before_hook e w)"
    unfolding before_hook_def
    by (intro emits_seq emits_local emits_invoke emits_create_indices emits_setupMockDefaults
          emits_services) (simp_all add: hook_settings_trace)
  then show ?thesis by (simp add: hook_calls_def)
qed

lemma emits_bootstrap: "emits (hook_calls w) (bootstrap e w)"
  unfolding emits_def
proof
  fix s
  show "(\<exists>n\<le>length (hook_calls w). trace (snd (bootstrap e w s)) = trace s @ take n (hook_calls w)) \<and>
        (fst (bootstrap e w s) = None \<longrightarrow> trace (snd (bootstrap e w s)) = trace s @ hook_calls w)"
  proof (cases "load_module e")
    case (Inl err)
    then show ?thesis by (auto simp: bootstrap_def intro: exI[of _ 0])
  next
    case (Inr n)
    then show ?thesis
      using emits_before_hook [of w e, unfolded emits_def, rule_format, of "s\<lparr>nconf := n\<rparr>"]
      by (simp add: bootstrap_def)
  qed
qed

lemma emitsD:
  assumes "emits evs f"
  shows "\<exists>new. trace (snd (f s)) = trace s @ new \<and> prefix new evs"
    and "fst (f s) = None \<Longrightarrow> trace (snd (f s)) = trace s @ evs"
proof -
  from assms obtain n where "trace (snd (f s)) = trace s @ take n evs"
    unfolding emits_def by blast
  then show "\<exists>new. trace (snd (f s)) = trace s @ new \<and> prefix new evs"
    using take_is_prefix by blast
  show "fst (f s) = None \<Longrightarrow> trace (snd (f s)) = trace s @ evs"
    using assms unfolding emits_def by blast
qed

subsection \<open>A rejected call ends the run\<close>

lemma orderly_invoke:
  assumes "\<And>s s'. effect s = Inr s' \<Longrightarrow> trace s' = trace s"
  shows "orderly w (invoke w ev effect)"
  unfolding orderly_def
proof (intro allI)
  fix s
  have len: "length (trace (snd (invoke w ev effect s))) = Suc (length (trace s))"
    using assms [of "s\<lparr>trace := trace s @ [ev]\<rparr>"]
    by (cases "effect (s\<lparr>trace := trace s @ [ev]\<rparr>)") (simp_all add: invoke_def Let_def)
  have ok: "\<not> rejects w (length (trace s))" if "fst (invoke w ev effect s) = None"
    using that by (auto simp: invoke_def Let_def split: if_splits)
  show "length (trace s) \<le> length (trace (snd (invoke w ev effect s))) \<and>
        (\<forall>i. length (trace s) \<le> i \<and> Suc i < length (trace (snd (invoke w ev effect s))) \<longrightarrow> \<not> rejects w i) \<and>
        (fst (invoke w ev effect s) = None \<longrightarrow>
           (\<forall>i. length (trace s) \<le> i \<and> i < length (trace (snd (invoke w ev effect s))) \<longrightarrow> \<not> rejects w i))"
    unfolding len using ok by (auto simp: less_Suc_eq_le)
qed

lemma orderly_local:
  assumes "\<And>s s'. f s = Inr s' \<Longrightarrow> trace s' = trace s"
  shows "orderly w (local_step f)"
  unfolding orderly_def
proof (intro allI)
  fix s
  have "trace (snd (local_step f s)) = trace s"
    using assms [of s] by (cases "f s") (simp_all add: local_step_def)
  then show "length (trace s) \<le> length (trace (snd (local_step f s))) \<and>
        (\<forall>i. length (trace s) \<le> i \<and> Suc i < length (trace (snd (local_step f s))) \<longrightarrow> \<not> rejects w i) \<and>
        (fst (local_step f s) = None \<longrightarrow>
           (\<forall>i. length (trace s) \<le> i \<and> i < length (trace (snd (local_step f s))) \<longrightarrow> \<not> rejects w i))"
    by auto
qed

lemma orderly_Nil: "orderly w (run_steps [])"
  by (auto simp: orderly_def)

lemma orderly_Cons:
  assumes f: "orderly w f" and g: "orderly w (run_steps rest)"
  shows "orderly w (run_steps (f # rest))"
  unfolding orderly_def
proof (intro allI)
  fix s
  obtain r s1 where fs: "f s = (r, s1)" by (cases "f s")
  from f [unfolded orderly_def, rule_format, of s] fs
  have f1: "length (trace s) \<le> length (trace s1)"
    and f2: "\<And>i. length (trace s) \<le> i \<Longrightarrow> Suc i < length (trace s1) \<Longrightarrow> \<not> rejects w i"
    and f3: "\<And>i. r = None \<Longrightarrow> length (trace s) \<le> i \<Longrightarrow> i < length (trace s1) \<Longrightarrow> \<not> rejects w i"
    by auto
  let ?s2 = "snd (run_steps rest s1)"
  from g [unfolded orderly_def, rule_format, of s1]
  have g1: "length (trace s1) \<le> length (trace ?s2)"
    and g2: "\<And>i. length (trace s1) \<le> i \<Longrightarrow> Suc i < length (trace ?s2) \<Longrightarrow> \<not> rejects w i"
    and g3: "\<And>i. fst (run_steps rest s1) = None \<Longrightarrow> length (trace s1) \<le> i \<Longrightarrow>
               i < length (trace ?s2) \<Longrightarrow> \<not> rejects w i"
    by auto
  show "length (trace s) \<le> length (trace (snd (run_steps (f # rest) s))) \<and>
        (\<forall>i. length (trace s) \<le> i \<and> Suc i < length (trace (snd (run_steps (f # rest) s))) \<longrightarrow> \<not> rejects w i) \<and>
        (fst (run_steps (f # rest) s) = None \<longrightarrow>
           (\<forall>i. length (trace s) \<le> i \<and> i < length (trace (snd (run_steps (f # rest) s))) \<longrightarrow> \<not> rejects w i))"
  proof (cases r)
    case (Some err)
    then show ?thesis using fs f1 f2 by simp
  next
    case None
    then have run: "run_steps (f # rest) s = run_steps rest s1" using fs by simp
    have a: "\<not> rejects w i" if "length (trace s) \<le> i" "Suc i < length (trace ?s2)" for i
    proof (cases "i < length (trace s1)")
      case True
      then show ?thesis using f3 [OF None that(1)] by blast
    next
      case False
      then show ?thesis using g2 [of i] that(2) by simp
    qed
    have b: "\<not> rejects w i"
      if "fst (run_steps rest s1) = None" "length (trace s) \<le> i" "i < length (trace ?s2)" for i
    proof (cases "i < length (trace s1)")
      case True
      then show ?thesis using f3 [OF None that(2)] by blast
    next
      case False
      then show ?thesis using g3 [of i] that(1,3) by simp
    qed
    show ?thesis
      unfolding run using f1 g1 a b by auto
  qed
qed

lemma orderly_setupDefaultConfigs: "orderly w (setupDefaultConfigs w)"
proof -
  have inv: "orderly w (invoke w (Await MetaConfigsSetOnEmpty) (\<lambda>s'. Inr (meta_configs_setOnEmpty d s')))" for d
    by (rule orderly_invoke) (auto simp: meta_configs_setOnEmpty_def)
  have *: "setupDefaultConfigs w s = (case defaults_file s of
       Inl err \<Rightarrow> (Some err, s)
     | Inr path \<Rightarrow> (case require_defaults w path of
          None \<Rightarrow> (Some (ModuleNotFound path), s)
        | Some loaded \<Rightarrow> invoke w (Await MetaConfigsSetOnEmpty)
            (\<lambda>s'. Inr (meta_configs_setOnEmpty (seed_defaults loaded) s')) s))" for s
    by (simp add: setupDefaultConfigs_def defaults_file_def seed_defaults_def Let_def
          split: sum.splits option.splits)
  show ?thesis
    unfolding orderly_def
  proof (intro allI)
    fix s
    show "length (trace s) \<le> length (trace (snd (setupDefaultConfigs w s))) \<and>
        (\<forall>i. length (trace s) \<le> i \<and> Suc i < length (trace (snd (setupDefaultConfigs w s))) \<longrightarrow> \<not> rejects w i) \<and>
        (fst (setupDefaultConfigs w s) = None \<longrightarrow>
           (\<forall>i. length (trace s) \<le> i \<and> i < length (trace (snd (setupDefaultConfigs w s))) \<longrightarrow> \<not> rejects w i))"
    proof (cases "defaults_file s")
      case (Inl err)
      then show ?thesis by (auto simp: *)
    next
      case (Inr path)
      show ?thesis
      proof (cases "require_defaults w path")
        case None
        then show ?thesis using Inr by (auto simp: *)
      next
        case (Some loaded)
        then show ?thesis
          using Inr inv [of "seed_defaults loaded", unfolded orderly_def, rule_format, of s]
          by (simp add: *)
      qed
    qed
  qed
qed

lemma orderly_giveDefaultGlobalPrivileges: "orderly w (giveDefaultGlobalPrivileges w)"
  unfolding giveDefaultGlobalPrivileges_def
  by (intro orderly_Cons orderly_Nil orderly_invoke) (auto simp: privileges_global_give_def)

lemma orderly_enableDefaultPlugins: "orderly w (enableDefaultPlugins w)"
proof -
  have inv: "orderly w (invoke w (Await (DbSortedSetAdd ''plugins:active'')) (\<lambda>s'. Inr (db_sortedSetAdd d s')))" for d
    by (rule orderly_invoke) (auto simp: db_sortedSetAdd_def)
  show ?thesis
    using inv unfolding orderly_def enableDefaultPlugins_def Let_def by simp
qed

lemma orderly_seed: "orderly w (seed w)"
  unfolding seed_def
  apply (rule orderly_Cons [OF orderly_setupDefaultConfigs])
  apply (rule orderly_Cons, rule orderly_invoke, force)
  apply (rule orderly_Cons, rule orderly_local, force)+
  apply (rule orderly_Cons, rule orderly_invoke, force)+
  apply (rule orderly_Cons [OF orderly_giveDefaultGlobalPrivileges])
  apply (rule orderly_Cons [OF orderly_enableDefaultPlugins])
  apply (rule orderly_Cons, rule orderly_invoke, force simp: meta_themes_set_def)
  apply (rule orderly_Nil)
  done

lemma orderly_mkdirps:
  "orderly w (run_steps (map (\<lambda>folder. invoke w (Await (Mkdirp folder)) (mkdirp w folder)) ps))"
proof (induction ps)
  case Nil
  then show ?case by (auto simp: orderly_def)
next
  case (Cons a ps)
  show ?case
    unfolding list.map
    by (rule orderly_Cons [OF orderly_invoke Cons]) (rule mkdirp_trace)
qed

lemma orderly_stage: "orderly w (stage w)"
  unfolding stage_def
  by (rule orderly_Cons [OF _ orderly_mkdirps], rule orderly_invoke) (simp add: fs_rm_def Let_def)

lemma orderly_setupMockDefaults: "orderly w (setupMockDefaults w)"
  unfolding setupMockDefaults_def empty_store_def
  by (intro orderly_Cons orderly_Nil orderly_seed orderly_stage orderly_invoke)
     (simp add: db_emptydb_def)

lemma orderly_create_indices: "orderly w (create_indices w)"
proof (cases "createIndices_defined w")
  case True
  have "orderly w (invoke w (Await DbCreateIndices) Inr)"
    by (rule orderly_invoke) simp
  then show ?thesis using True by (simp add: orderly_def create_indices_def)
next
  case False
  then show ?thesis by (auto simp: orderly_def create_indices_def)
qed

lemma orderly_before_hook: "orderly w (before_hook e w)"
  unfolding before_hook_def
  apply (rule orderly_Cons, rule orderly_local, erule hook_settings_trace)
  apply (rule orderly_Cons, rule orderly_invoke, force)
  apply (rule orderly_Cons [OF orderly_create_indices])
  apply (rule orderly_Cons [OF orderly_setupMockDefaults])
  apply (rule orderly_Cons, rule orderly_invoke, force)
  apply (rule orderly_Cons, rule orderly_local, erule theme_templates_setting_trace)
  apply (rule orderly_Cons, rule orderly_local, erule session_key_setting_trace)
  apply (rule orderly_Cons, rule orderly_invoke, force)+
  apply (rule orderly_Cons, rule orderly_local, force simp: register_reset_def)
  apply (rule orderly_Nil)
  done

lemma orderly_bootstrap: "orderly w (bootstrap e w)"
  unfolding orderly_def
proof (intro allI)
  fix s
  show "length (trace s) \<le> length (trace (snd (bootstrap e w s))) \<and>
        (\<forall>i. length (trace s) \<le> i \<and> Suc i < length (trace (snd (bootstrap e w s))) \<longrightarrow> \<not> rejects w i) \<and>
        (fst (bootstrap e w s) = None \<longrightarrow>
           (\<forall>i. length (trace s) \<le> i \<and> i < length (trace (snd (bootstrap e w s))) \<longrightarrow> \<not> rejects w i))"
  proof (cases "load_module e")
    case (Inl err)
    then show ?thesis by (auto simp: bootstrap_def)
  next
    case (Inr n)
    then show ?thesis
      using orderly_before_hook [of w e, unfolded orderly_def, rule_format, of "s\<lparr>nconf := n\<rparr>"]
      by (simp add: bootstrap_def)
  qed
qed

subsection \<open>A complete bootstrap\<close>

lemma hook_settings_only_nconf:
  "hook_settings e w s = Inr s' \<Longrightarrow> s' = s\<lparr>nconf := nconf s'\<rparr>"
  by (auto simp: hook_settings_def Let_def split: sum.splits)

lemma theme_templates_setting_only_nconf:
  "theme_templates_setting s = Inr s' \<Longrightarrow> s' = s\<lparr>nconf := nconf s'\<rparr>"
  by (auto simp: theme_templates_setting_def Let_def split: sum.splits if_splits)

lemma path_join_string_args:
  "path_join (map Str ss) = Inr (path_join_strings ss)"
proof -
  have "path_join_args (map Str ss) = Inr ss"
    by (induction ss) simp_all
  then show ?thesis by (simp add: path_join_def)
qed

lemma hook_settings_succeeds:
  assumes "nconf_get (nconf s) ''url'' = Str u" and "url_parse e u = Inr parsed"
    and "nconf_get (nconf s) ''themes_path'' = Str t"
  shows "\<exists>s'. hook_settings e w s = Inr s'"
proof -
  let ?n1 = "nconf_set ''core_templates_path'' (Str (path_join_strings [dirname e, ''../../src/views''])) (nconf s)"
  have t1: "nconf_get ?n1 ''themes_path'' = Str t"
    using assms(3) by (simp add: nconf_get_set_other first_segment_def)
  have j1: "path_join [Str t, Str ''nodebb-theme-persona/templates'']
              = Inr (path_join_strings [t, ''nodebb-theme-persona/templates''])"
    using path_join_string_args [of "[t, ''nodebb-theme-persona/templates'']"] by simp
  let ?n2 = "nconf_set ''base_templates_path''
               (Str (path_join_strings [t, ''nodebb-theme-persona/templates''])) ?n1"
  have t2: "nconf_get ?n2 ''themes_path'' = Str t"
    using t1 by (simp add: nconf_get_set_other first_segment_def)
  have j2: "path_join [Str t, Str ''nodebb-theme-persona'', Str ''theme.json'']
              = Inr (path_join_strings [t, ''nodebb-theme-persona'', ''theme.json''])"
    using path_join_string_args [of "[t, ''nodebb-theme-persona'', ''theme.json'']"] by simp
  show ?thesis
    unfolding hook_settings_def Let_def
    by (simp add: assms(1,2) js_url_parse_def t1 j1 t2 j2)
qed

lemma theme_templates_setting_succeeds:
  assumes "meta_config s ''theme:templates'' = None"
  shows "\<exists>s'. theme_templates_setting s = Inr s'"
  using assms by (simp add: theme_templates_setting_def)

lemma defaults_file_string:
  assumes "nconf_get (nconf s) ''base_dir'' = Str b"
  shows "defaults_file s = Inr (path_join_strings [b, ''install/data/defaults.json''])"
  using path_join_string_args [of "[b, ''install/data/defaults.json'']"] assms
  by (simp add: defaults_file_def)

lemma before_hook_succeeds:
  assumes never: "never_rejects w"
    and url: "nconf_get (nconf s) ''url'' = Str u" "url_parse e u = Inr parsed"
    and themes: "nconf_get (nconf s) ''themes_path'' = Str t"
    and base: "nconf_get (nconf s) ''base_dir'' = Str b"
    and defaults: "require_defaults w (path_join_strings [b, ''install/data/defaults.json'']) = Some loaded"
    and templates: "configs_init w (seed_defaults loaded) ''theme:templates'' = None"
    and clear: "way_clear w s"
  shows "fst (before_hook e w s) = None"
proof -
  from hook_settings_succeeds [OF url themes] obtain s1 where
    1: "hook_settings e w s = Inr s1" by blast
  note s1 = hook_settings_only_nconf [OF 1]
  have base1: "nconf_get (nconf s1) ''base_dir'' = Str b"
    using hook_settings_other [OF 1, of "''base_dir''"] base
    by (simp add: first_segment_def hook_keys_def)
  have fs1: "fs s1 = fs s"
    by (subst s1) simp
  define s2 where "s2 = s1\<lparr>trace := trace s1 @ [Await DbInit]\<rparr>"
  have 2: "invoke w (Await DbInit) Inr s1 = (None, s2)"
    using never by (simp add: invoke_ok never_rejects_def s2_def)
  obtain s3 where 3: "create_indices w s2 = (None, s3)"
    and s3: "nconf s3 = nconf s2" "fs s3 = fs s2"
    using never by (cases "createIndices_defined w")
      (auto simp: create_indices_def invoke_ok never_rejects_def)
  have d3: "defaults_file s3 = Inr (path_join_strings [b, ''install/data/defaults.json''])"
    using base1 by (intro defaults_file_string) (simp add: s3 s2_def)
  have c3: "way_clear w s3"
    using clear by (simp add: way_clear_def s3 s2_def fs1)
  define s4 where "s4 = staged w (seeded w loaded (emptied s3))"
  have 4: "setupMockDefaults w s3 = (None, s4)"
    unfolding s4_def using never d3 defaults c3 by (rule setupMockDefaults_succeeds)
  define s5 where "s5 = s4\<lparr>trace := trace s4 @ [Await DbInitSessionStore]\<rparr>"
  have 5: "invoke w (Await DbInitSessionStore) Inr s4 = (None, s5)"
    using never by (simp add: invoke_ok never_rejects_def s5_def)
  have "meta_config s5 ''theme:templates'' = None"
    using templates
    by (simp add: s5_def s4_def staged_fields seeded_fields emptied_fields)
  from theme_templates_setting_succeeds [OF this] obtain s6 where
    6: "theme_templates_setting s5 = Inr s6" by blast
  obtain s7 where 7: "session_key_setting s6 = Inr s7"
    by (simp add: session_key_setting_def)
  have rest: "\<exists>s'. run_steps
       [invoke w (Await MetaDependenciesCheck) Inr,
        invoke w (Await SocketsInit) Inr,
        invoke w (Plain NotificationsStartJobs) Inr,
        invoke w (Plain UserStartJobs) Inr,
        invoke w (Await WebserverListen) Inr,
        local_step (register_reset w)] s7 = (None, s')"
    using never
    by (simp add: run_steps_Cons_ok run_steps_Nil_ok invoke_ok local_step_ok never_rejects_def
          register_reset_def del: run_steps.simps)
  then obtain s' where 8: "run_steps
       [invoke w (Await MetaDependenciesCheck) Inr,
        invoke w (Await SocketsInit) Inr,
        invoke w (Plain NotificationsStartJobs) Inr,
        invoke w (Plain UserStartJobs) Inr,
        invoke w (Await WebserverListen) Inr,
        local_step (register_reset w)] s7 = (None, s')" by blast
  have "before_hook e w s = (None, s')"
    unfolding before_hook_def
    using 1 2 3 4 5 6 7 8
    by (simp add: run_steps_Cons_ok local_step_ok del: run_steps.simps)
  then show ?thesis by simp
qed

lemma load_module_other:
  assumes "load_module e = Inr n" and "first_segment k \<notin> set derived_keys"
    and "first_segment k \<noteq> first_segment (engine_key e)"
  shows "nconf_get n k = configured e k"
proof -
  from load_module_Inr [OF assms(1)] obtain m where
    m: "resolve_config e = Inr m" "n = nconf_set (engine_key e) (configured e ''test_database'') m"
    by blast
  show ?thesis
    by (simp add: m(2) nconf_get_set_other [OF assms(3)] resolve_config_other [OF m(1) assms(2)])
qed

lemma bootstrap_succeeds:
  assumes load: "load_module e = Inr n"
    and never: "never_rejects w"
    and themes: "configured e ''themes_path'' = Str t"
    and base: "configured e ''base_dir'' = Str b"
    and defaults: "require_defaults w (path_join_strings [b, ''install/data/defaults.json'']) = Some loaded"
    and templates: "configs_init w (seed_defaults loaded) ''theme:templates'' = None"
    and clear: "way_clear w s"
  shows "fst (bootstrap e w s) = None"
proof -
  from load_module_Inr [OF load] obtain m where m: "resolve_config e = Inr m" by blast
  then obtain u parsed where url: "configured e ''url'' = Str u" "url_parse e u = Inr parsed"
    using resolve_config_succeeds [of e] by blast
  have keys: "nconf_get n ''url'' = configured e ''url''"
    "nconf_get n ''themes_path'' = configured e ''themes_path''"
    "nconf_get n ''base_dir'' = configured e ''base_dir''"
    by (rule load_module_other [OF load];
        simp add: first_segment_def derived_keys_def engine_key_def)+
  have "fst (before_hook e w (s\<lparr>nconf := n\<rparr>)) = None"
    using never _ url(2) _ _ defaults templates
  proof (rule before_hook_succeeds)
    show "nconf_get (nconf (s\<lparr>nconf := n\<rparr>)) ''url'' = Str u" by (simp add: keys url)
    show "nconf_get (nconf (s\<lparr>nconf := n\<rparr>)) ''themes_path'' = Str t" by (simp add: keys themes)
    show "nconf_get (nconf (s\<lparr>nconf := n\<rparr>)) ''base_dir'' = Str b" by (simp add: keys base)
    show "way_clear w (s\<lparr>nconf := n\<rparr>)" using clear by (simp add: way_clear_def)
  qed
  then show ?thesis using load by (simp add: bootstrap_def)
qed

subsection \<open>The concrete installation, continued\<close>

lemma example_loads: "\<exists>n. load_module (example_env (example_config 1)) = Inr n"
proof -
  obtain m where m: "resolve_config (example_env (example_config 1)) = Inr m"
    using example_resolves by blast
  have "environment_guard (example_target 1) (example_target 0) = Inr ()"
    by (simp add: environment_guard_def same_field_def example_target_def)
  then show ?thesis
    using load_module_resolved [OF m]
    by (simp add: example_configured) (simp add: example_target_def)
qed

lemma example_world_facts:
  "never_rejects example_world"
  "require_defaults example_world (path_join_strings [''/repo'', ''install/data/defaults.json''])
     = Some [''minimumPasswordStrength'' \<mapsto> Num 1, ''postDelay'' \<mapsto> Num 10]"
  "configs_init example_world c = c"
  "cwd example_world = [''repo'']"
  "createIndices_defined example_world"
  by (simp_all add: example_world_def never_rejects_def path_join_strings_def path_normalize_def
        normalize_segments_def norm_step_def)

lemma example_way_clear: "way_clear example_world example_state"
  by (simp add: way_clear_def example_world_def example_state_def)

lemma example_themes_path:
  "configured (example_env (example_config i)) ''themes_path'' = Str ''/repo/node_modules''"
  by (simp add: evaluate_config)

lemma example_bootstrap_succeeds:
  "fst (bootstrap (example_env (example_config 1)) example_world example_state) = None"
proof -
  obtain n where n: "load_module (example_env (example_config 1)) = Inr n"
    using example_loads by blast
  show ?thesis
    using n example_world_facts(1) example_themes_path example_configured(5)
      example_world_facts(2) _ example_way_clear
    by (rule bootstrap_succeeds) (simp add: example_world_facts(3) seed_defaults_def)
qed

lemma example_state_defaults_file:
  "defaults_file example_state = Inr ''/repo/install/data/defaults.json''"
  by (simp add: defaults_file_def example_state_def nconf_get_def path_join_def path_join_strings_def
        path_normalize_def normalize_segments_def norm_step_def)

lemma example_reset_succeeds:
  "setupMockDefaults example_world example_state =
     (None, staged example_world
              (seeded example_world [''minimumPasswordStrength'' \<mapsto> Num 1, ''postDelay'' \<mapsto> Num 10]
                 (emptied example_state)))"
  using example_world_facts(1) example_state_defaults_file _ example_way_clear
  by (rule setupMockDefaults_succeeds) (simp add: example_world_def)

section \<open>The environment guard\<close>

text \<open>
  C2. The environment guard throws its error if and only if the test store target and the
  production store target agree on all three of database name, host and port, compared the
  way the guard compares them; when they differ in at least one of the three, the guard
  succeeds. With both targets present in the resolved configuration, loading the module
  then ends in exactly that error when the targets agree, and otherwise goes on: it stores
  the test target and the \<^verbatim>\<open>before\<close> hook is registered.
\<close>

theorem environment_guard_throws_iff_targets_agree:
  assumes "truthy t" and "p \<noteq> Undefined" and "p \<noteq> Null"
  shows "(environment_guard t p = Inl unsafe_environment \<longleftrightarrow> targets_agree t p) \<and>
         (environment_guard t p = Inr () \<longleftrightarrow> \<not> targets_agree t p) \<and>
         (resolve_config e = Inr n \<and> nconf_get n ''test_database'' = t \<and> nconf_get n ''database'' = p \<longrightarrow>
            load_module e =
              (if targets_agree t p then Inl unsafe_environment
               else Inr (nconf_set (''database.'' @ to_string (nconf_get n ''database.type'')) t n)))"
proof -
  have guard: "environment_guard t p = (if targets_agree t p then Inl unsafe_environment else Inr ())"
    using assms by (rule environment_guard_agree)
  have "load_module e =
          (if targets_agree t p then Inl unsafe_environment
           else Inr (nconf_set (''database.'' @ to_string (nconf_get n ''database.type'')) t n))"
    if "resolve_config e = Inr n" "nconf_get n ''test_database'' = t" "nconf_get n ''database'' = p"
    using that guard assms(1)
    by (simp add: load_module_def Let_def require_test_database_def)
  then show ?thesis
    using guard by (simp add: unsafe_environment_def)
qed

theorem environment_guard_throws_iff_targets_agree_witness:
  "truthy (example_target 1) \<and> example_target 0 \<noteq> Undefined \<and> example_target 0 \<noteq> Null \<and>
   \<not> targets_agree (example_target 1) (example_target 0) \<and>
   environment_guard (example_target 1) (example_target 0) = Inr () \<and>
   (\<exists>n. resolve_config (example_env (example_config 1)) = Inr n \<and>
        nconf_get n ''test_database'' = example_target 1 \<and>
        nconf_get n ''database'' = example_target 0 \<and>
        load_module (example_env (example_config 1)) =
          Inr (nconf_set ''database.redis'' (example_target 1) n)) \<and>
   targets_agree (example_target 0) (example_target 0) \<and>
   environment_guard (example_target 0) (example_target 0) = Inl unsafe_environment"
proof -
  obtain n where n: "resolve_config (example_env (example_config 1)) = Inr n"
    using example_resolves by blast
  have vals: "nconf_get n ''test_database'' = example_target 1"
    "nconf_get n ''database'' = example_target 0"
    "nconf_get n ''database.type'' = Str ''redis''"
    using resolve_config_targets [OF n] by (simp_all add: example_configured)
  have basic: "truthy (example_target 1)" "truthy (example_target 0)"
    "example_target 0 \<noteq> Undefined" "example_target 0 \<noteq> Null"
    "\<not> targets_agree (example_target 1) (example_target 0)"
    "targets_agree (example_target 0) (example_target 0)"
    by (simp_all add: example_target_def targets_agree_def member_def)
  note differ = environment_guard_throws_iff_targets_agree
    [of "example_target 1" "example_target 0" "example_env (example_config 1)" n, OF basic(1,3,4)]
  note agree = environment_guard_throws_iff_targets_agree
    [of "example_target 0" "example_target 0" "example_env (example_config 1)" n, OF basic(2,3,4)]
  show ?thesis
    using differ agree n vals basic by auto
qed

section \<open>Failures of the configuration\<close>

text \<open>
  C8, as the source has it. When \<^verbatim>\<open>config.json\<close> cannot be read, the module rethrows
  the read error. When the URL is absent, \<^verbatim>\<open>url.parse\<close> throws; when the test store
  connection info \<^verbatim>\<open>test_database\<close> is absent, the module throws its own error (once
  the rest of the configuration has resolved; an earlier error otherwise); when the
  production store connection info \<^verbatim>\<open>database\<close> is absent, reading its members throws.
  In each of these cases loading the module fails, no configuration is handed on, and the
  bootstrap ends with the state untouched: no call has been made and no reset callback is
  registered.
\<close>

theorem unreadable_or_incomplete_config_stops_bootstrap:
  "(config_json e = Unreadable \<longrightarrow> bootstrap e w s = (Some FsReadError, s)) \<and>
   ((\<exists>kvs. config_json e = Parsed kvs) \<and> configured e ''url'' = Undefined \<longrightarrow>
      bootstrap e w s = (Some (TypeError ''The url argument must be of type string''), s)) \<and>
   (\<not> truthy (configured e ''test_database'') \<longrightarrow>
      (\<exists>err. load_module e = Inl err \<and> bootstrap e w s = (Some err, s)) \<and>
      ((\<exists>n. resolve_config e = Inr n) \<longrightarrow>
         bootstrap e w s = (Some (Error ''Test database is not defined in config.json''), s))) \<and>
   (configured e ''database'' = Undefined \<longrightarrow>
      (\<exists>err. load_module e = Inl err \<and> bootstrap e w s = (Some err, s)) \<and>
      ((\<exists>n. resolve_config e = Inr n) \<and> truthy (configured e ''test_database'') \<longrightarrow>
         bootstrap e w s =
           (Some (TypeError ''Cannot read properties of undefined (reading database)''), s)))"
proof (intro conjI impI)
  assume "config_json e = Unreadable"
  then have "load_module e = Inl FsReadError"
    by (simp add: load_module_def resolve_config_def load_config_def)
  then show "bootstrap e w s = (Some FsReadError, s)"
    by (rule bootstrap_not_loaded)
next
  assume a: "(\<exists>kvs. config_json e = Parsed kvs) \<and> configured e ''url'' = Undefined"
  then obtain n0 where n0: "load_config e = Inr n0"
    by (auto simp: load_config_def)
  with a have "nconf_get n0 ''url'' = Undefined"
    by (simp add: configured_def)
  with n0 have "load_module e = Inl (TypeError ''The url argument must be of type string'')"
    by (simp add: load_module_def resolve_config_def js_url_parse_def)
  then show "bootstrap e w s = (Some (TypeError ''The url argument must be of type string''), s)"
    by (rule bootstrap_not_loaded)
next
  assume a: "\<not> truthy (configured e ''test_database'')"
  show "\<exists>err. load_module e = Inl err \<and> bootstrap e w s = (Some err, s)"
  proof (cases "resolve_config e")
    case (Inl err)
    then show ?thesis
      using load_module_unresolved bootstrap_not_loaded by blast
  next
    case (Inr m)
    then show ?thesis
      using a load_module_resolved [OF Inr] bootstrap_not_loaded by auto
  qed
next
  assume a: "\<not> truthy (configured e ''test_database'')" and "\<exists>n. resolve_config e = Inr n"
  then obtain m where m: "resolve_config e = Inr m" by blast
  show "bootstrap e w s = (Some (Error ''Test database is not defined in config.json''), s)"
    using a load_module_resolved [OF m] by (simp add: bootstrap_not_loaded)
next
  assume a: "configured e ''database'' = Undefined"
  show "\<exists>err. load_module e = Inl err \<and> bootstrap e w s = (Some err, s)"
  proof (cases "load_module e")
    case (Inl err)
    then show ?thesis using bootstrap_not_loaded by blast
  next
    case (Inr n)
    from load_module_Inr [OF Inr] a show ?thesis
      by (cases "configured e ''test_database''")
         (auto simp: environment_guard_def same_field_def split: sum.splits)
  qed
next
  assume a: "configured e ''database'' = Undefined"
    and b: "(\<exists>n. resolve_config e = Inr n) \<and> truthy (configured e ''test_database'')"
  then obtain m where m: "resolve_config e = Inr m" by blast
  from b have "get_prop (configured e ''test_database'') ''database''
                 = Inr (member (configured e ''test_database'') ''database'')"
    using truthy_defined get_prop_defined by blast
  then have "environment_guard (configured e ''test_database'') (configured e ''database'')
               = Inl (TypeError ''Cannot read properties of undefined (reading database)'')"
    using a by (simp add: environment_guard_def same_field_def)
  then show "bootstrap e w s =
      (Some (TypeError ''Cannot read properties of undefined (reading database)''), s)"
    using b load_module_resolved [OF m] by (simp add: bootstrap_not_loaded)
qed

theorem unreadable_or_incomplete_config_stops_bootstrap_witness:
  "bootstrap \<lparr>config_json = Unreadable, dirname = ''/repo/test/mocks'', url_parse = example_url_parse\<rparr>
     example_world example_state = (Some FsReadError, example_state) \<and>
   configured (example_env []) ''url'' = Undefined \<and>
   bootstrap (example_env []) example_world example_state =
     (Some (TypeError ''The url argument must be of type string''), example_state) \<and>
   \<not> truthy (configured (example_env [(''url'', Str ''http://127.0.0.1:4567''), (''database'', example_target 0)])
               ''test_database'') \<and>
   (\<exists>n. resolve_config (example_env [(''url'', Str ''http://127.0.0.1:4567''), (''database'', example_target 0)]) = Inr n) \<and>
   bootstrap (example_env [(''url'', Str ''http://127.0.0.1:4567''), (''database'', example_target 0)])
     example_world example_state =
     (Some (Error ''Test database is not defined in config.json''), example_state) \<and>
   configured (example_env [(''url'', Str ''http://127.0.0.1:4567''), (''test_database'', example_target 1)])
     ''database'' = Undefined \<and>
   bootstrap (example_env [(''url'', Str ''http://127.0.0.1:4567''), (''test_database'', example_target 1)])
     example_world example_state =
     (Some (TypeError ''Cannot read properties of undefined (reading database)''), example_state)"
proof -
  let ?e1 = "\<lparr>config_json = Unreadable, dirname = ''/repo/test/mocks'', url_parse = example_url_parse\<rparr>"
  let ?e3 = "example_env [(''url'', Str ''http://127.0.0.1:4567''), (''database'', example_target 0)]"
  let ?e4 = "example_env [(''url'', Str ''http://127.0.0.1:4567''), (''test_database'', example_target 1)]"
  have c2: "\<exists>kvs. config_json (example_env []) = Parsed kvs" "configured (example_env []) ''url'' = Undefined"
    by (simp_all add: example_env_def configured_def load_config_def nconf_get_def)
  have c3: "\<not> truthy (configured ?e3 ''test_database'')" "\<exists>n. resolve_config ?e3 = Inr n"
    unfolding resolve_config_succeeds
    by (simp_all add: evaluate_config)
  have c4: "configured ?e4 ''database'' = Undefined" "truthy (configured ?e4 ''test_database'')"
    "\<exists>n. resolve_config ?e4 = Inr n"
    unfolding resolve_config_succeeds
    by (simp_all add: evaluate_config example_target_def)
  show ?thesis
    using unreadable_or_incomplete_config_stops_bootstrap [of ?e1 example_world example_state]
      unreadable_or_incomplete_config_stops_bootstrap [of "example_env []" example_world example_state]
      unreadable_or_incomplete_config_stops_bootstrap [of ?e3 example_world example_state]
      unreadable_or_incomplete_config_stops_bootstrap [of ?e4 example_world example_state]
      c2 c3 c4
    by simp
qed

lemma untyped_configured:
  "configured (example_env untyped_config) ''database.type'' = Undefined"
  "configured (example_env untyped_config) ''test_database'' = untyped_target 1"
  "configured (example_env untyped_config) ''database'' = untyped_target 0"
  "configured (example_env untyped_config) ''url'' = Str ''http://127.0.0.1:4567''"
  "configured (example_env untyped_config) ''base_dir'' = Str ''/repo''"
  "configured (example_env untyped_config) ''upload_path'' = Str ''test/uploads''"
  "configured (example_env untyped_config) ''themes_path'' = Str ''/repo/node_modules''"
  by (simp_all add: evaluate_config untyped_config_def untyped_target_def)

lemma untyped_loads: "\<exists>n. load_module (example_env untyped_config) = Inr n"
proof -
  have "\<exists>m. resolve_config (example_env untyped_config) = Inr m"
    unfolding resolve_config_succeeds untyped_configured
    by (simp add: example_env_def example_url_parse_def)
  then obtain m where m: "resolve_config (example_env untyped_config) = Inr m" by blast
  have "environment_guard (untyped_target 1) (untyped_target 0) = Inr ()"
    by (simp add: environment_guard_def same_field_def untyped_target_def)
  then show ?thesis
    using load_module_resolved [OF m]
    by (simp add: untyped_configured) (simp add: untyped_target_def)
qed

lemma untyped_bootstrap_succeeds:
  "fst (bootstrap (example_env untyped_config) example_world example_state) = None"
proof -
  obtain n where n: "load_module (example_env untyped_config) = Inr n"
    using untyped_loads by blast
  show ?thesis
    using n example_world_facts(1) untyped_configured(7) untyped_configured(5)
      example_world_facts(2) _ example_way_clear
    by (rule bootstrap_succeeds) (simp add: example_world_facts(3) seed_defaults_def)
qed

text \<open>
  The claim as the specification words it counts the engine type among the required keys
  of the store connection info. A configuration without it: the module loads, line 90
  writes the test store target under the key \<^verbatim>\<open>database.undefined\<close>, and the bootstrap
  runs to its end, \<^verbatim>\<open>db.emptydb\<close> included.
\<close>

theorem absent_engine_type_does_not_stop_bootstrap:
  "configured (example_env untyped_config) ''database.type'' = Undefined \<and>
   member (configured (example_env untyped_config) ''database'') ''type'' = Undefined \<and>
   member (configured (example_env untyped_config) ''test_database'') ''type'' = Undefined \<and>
   engine_key (example_env untyped_config) = ''database.undefined'' \<and>
   loaded_value (example_env untyped_config) ''database.undefined'' = Some (untyped_target 1) \<and>
   fst (bootstrap (example_env untyped_config) example_world example_state) = None \<and>
   Await DbEmptydb
     \<in> set (trace (snd (bootstrap (example_env untyped_config) example_world example_state)))"
proof -
  obtain n where n: "load_module (example_env untyped_config) = Inr n"
    using untyped_loads by blast
  have key: "engine_key (example_env untyped_config) = ''database.undefined''"
    by (simp add: engine_key_def untyped_configured)
  have "nconf_get n ''database.undefined'' = returned (untyped_target 1)"
    using loaded_engine_key [OF n] by (simp add: key untyped_configured)
  then have stored: "nconf_get n ''database.undefined'' = untyped_target 1"
    by (simp add: returned_def common_merge_def untyped_target_def)
  have "trace (snd (bootstrap (example_env untyped_config) example_world example_state))
          = hook_calls example_world"
    using emitsD(2) [OF emits_bootstrap untyped_bootstrap_succeeds]
    by (simp add: example_state_def)
  then have called: "Await DbEmptydb
     \<in> set (trace (snd (bootstrap (example_env untyped_config) example_world example_state)))"
    by (simp add: hook_calls_def reset_calls_def)
  show ?thesis
    using n key stored called untyped_bootstrap_succeeds
    by (simp add: loaded_value_def untyped_configured) (simp add: untyped_target_def member_def)
qed

section \<open>Equal store targets\<close>

text \<open>
  C1. Whenever the bootstrap calls \<^verbatim>\<open>db.emptydb\<close>, the environment guard has passed
  before. For every configuration in which the test and the production store target are
  present and agree on database name, host and port, the bootstrap fails while the module
  is loaded: it ends with an error and the state untouched, so \<^verbatim>\<open>db.emptydb\<close> has not
  been called and no reset callback, the only other caller, is registered. The error is the
  one of the guard whenever the configuration resolves up to the guard.
\<close>

theorem equal_targets_fail_before_emptydb:
  "(Await DbEmptydb \<in> set (trace (snd (bootstrap e w s))) \<and> Await DbEmptydb \<notin> set (trace s) \<longrightarrow>
      environment_guard (configured e ''test_database'') (configured e ''database'') = Inr ()) \<and>
   (truthy (configured e ''test_database'') \<and>
    configured e ''database'' \<noteq> Undefined \<and> configured e ''database'' \<noteq> Null \<and>
    targets_agree (configured e ''test_database'') (configured e ''database'') \<longrightarrow>
      (\<exists>err. bootstrap e w s = (Some err, s)) \<and>
      trace (snd (bootstrap e w s)) = trace s \<and>
      reset_hooks (snd (bootstrap e w s)) = reset_hooks s \<and>
      ((\<exists>n. resolve_config e = Inr n) \<longrightarrow> bootstrap e w s = (Some unsafe_environment, s)))"
proof (intro conjI impI)
  assume a: "Await DbEmptydb \<in> set (trace (snd (bootstrap e w s))) \<and> Await DbEmptydb \<notin> set (trace s)"
  show "environment_guard (configured e ''test_database'') (configured e ''database'') = Inr ()"
  proof (cases "load_module e")
    case (Inl err)
    then show ?thesis using a by (simp add: bootstrap_not_loaded)
  next
    case (Inr n)
    then show ?thesis using load_module_Inr by blast
  qed
next
  assume a: "truthy (configured e ''test_database'') \<and>
    configured e ''database'' \<noteq> Undefined \<and> configured e ''database'' \<noteq> Null \<and>
    targets_agree (configured e ''test_database'') (configured e ''database'')"
  then have guard: "environment_guard (configured e ''test_database'') (configured e ''database'')
                      = Inl unsafe_environment"
    by (simp add: environment_guard_agree)
  have fails: "\<exists>err. load_module e = Inl err"
  proof (cases "resolve_config e")
    case (Inl err)
    then show ?thesis using load_module_unresolved by blast
  next
    case (Inr m)
    then show ?thesis using a guard load_module_resolved [OF Inr] by simp
  qed
  then show "\<exists>err. bootstrap e w s = (Some err, s)"
    using bootstrap_not_loaded by blast
  from fails show "trace (snd (bootstrap e w s)) = trace s"
    using bootstrap_not_loaded by fastforce
  from fails show "reset_hooks (snd (bootstrap e w s)) = reset_hooks s"
    using bootstrap_not_loaded by fastforce
  show "bootstrap e w s = (Some unsafe_environment, s)" if "\<exists>n. resolve_config e = Inr n"
  proof -
    from that obtain m where m: "resolve_config e = Inr m" by blast
    show ?thesis
      using a guard load_module_resolved [OF m] by (simp add: bootstrap_not_loaded)
  qed
qed

lemma example_bootstrap_trace:
  "trace (snd (bootstrap (example_env (example_config 1)) example_world example_state))
     = hook_calls example_world"
  using emitsD(2) [OF emits_bootstrap example_bootstrap_succeeds]
  by (simp add: example_state_def)

theorem equal_targets_fail_before_emptydb_witness:
  "Await DbEmptydb \<in> set (trace (snd (bootstrap (example_env (example_config 1)) example_world example_state))) \<and>
   Await DbEmptydb \<notin> set (trace example_state) \<and>
   environment_guard (configured (example_env (example_config 1)) ''test_database'')
     (configured (example_env (example_config 1)) ''database'') = Inr () \<and>
   truthy (configured (example_env (example_config 0)) ''test_database'') \<and>
   configured (example_env (example_config 0)) ''database'' \<noteq> Undefined \<and>
   configured (example_env (example_config 0)) ''database'' \<noteq> Null \<and>
   targets_agree (configured (example_env (example_config 0)) ''test_database'')
     (configured (example_env (example_config 0)) ''database'') \<and>
   (\<exists>n. resolve_config (example_env (example_config 0)) = Inr n) \<and>
   bootstrap (example_env (example_config 0)) example_world example_state
     = (Some unsafe_environment, example_state)"
proof -
  have called: "Await DbEmptydb \<in> set (trace (snd (bootstrap (example_env (example_config 1)) example_world example_state)))"
    by (simp add: example_bootstrap_trace hook_calls_def reset_calls_def)
  have fresh: "Await DbEmptydb \<notin> set (trace example_state)"
    by (simp add: example_state_def)
  have same: "truthy (example_target 0)" "example_target 0 \<noteq> Undefined" "example_target 0 \<noteq> Null"
    "targets_agree (example_target 0) (example_target 0)"
    by (simp_all add: example_target_def targets_agree_def member_def)
  show ?thesis
    using equal_targets_fail_before_emptydb
            [of "example_env (example_config 1)" example_world example_state]
          equal_targets_fail_before_emptydb
            [of "example_env (example_config 0)" example_world example_state]
          called fresh same example_resolves [of 0]
    by (simp add: example_configured)
qed

section \<open>The reset callback\<close>




section \<open>Starting the services\<close>

lemma filter_starts_service_hook_calls:
  "filter starts_service (hook_calls w) =
     [Await DbInitSessionStore, Await SocketsInit, Plain NotificationsStartJobs,
      Plain UserStartJobs, Await WebserverListen]"
  by (simp add: hook_calls_def reset_calls_def seed_calls_def stage_calls_def folders_def
        service_calls_def)

text \<open>
  C4, as the source has it. In every run of the bootstrap the calls are made in the order
  of the source and a call is made only when no earlier call failed. In a run that
  completes, the calls of emptying, seeding and staging are followed by the start of the
  session store, the dependency check, the start of the realtime transport, the start of
  the job processors for notifications and for users, and the start of the web listener,
  in this order; the two job processors are started by plain calls, the others are
  awaited.
\<close>

theorem services_start_in_source_order:
  "(\<exists>new. trace (snd (bootstrap e w s)) = trace s @ new \<and> prefix new (hook_calls w)) \<and>
   (\<forall>i. length (trace s) \<le> i \<and> Suc i < length (trace (snd (bootstrap e w s))) \<longrightarrow> \<not> rejects w i) \<and>
   (fst (bootstrap e w s) = None \<longrightarrow>
      (\<exists>before. trace (snd (bootstrap e w s)) =
          trace s @ before @ reset_calls @
            [Await DbInitSessionStore, Await MetaDependenciesCheck, Await SocketsInit,
             Plain NotificationsStartJobs, Plain UserStartJobs, Await WebserverListen]) \<and>
      filter starts_service (trace (snd (bootstrap e w s))) =
        filter starts_service (trace s) @
          [Await DbInitSessionStore, Await SocketsInit, Plain NotificationsStartJobs,
           Plain UserStartJobs, Await WebserverListen])"
proof (intro conjI impI)
  show "\<exists>new. trace (snd (bootstrap e w s)) = trace s @ new \<and> prefix new (hook_calls w)"
    using emitsD(1) [OF emits_bootstrap] by blast
  show "\<forall>i. length (trace s) \<le> i \<and> Suc i < length (trace (snd (bootstrap e w s))) \<longrightarrow> \<not> rejects w i"
    using orderly_bootstrap [of w e] unfolding orderly_def by blast
next
  assume ok: "fst (bootstrap e w s) = None"
  then have tr: "trace (snd (bootstrap e w s)) = trace s @ hook_calls w"
    using emitsD(2) [OF emits_bootstrap] by blast
  show "\<exists>before. trace (snd (bootstrap e w s)) =
          trace s @ before @ reset_calls @
            [Await DbInitSessionStore, Await MetaDependenciesCheck, Await SocketsInit,
             Plain NotificationsStartJobs, Plain UserStartJobs, Await WebserverListen]"
    unfolding tr hook_calls_def service_calls_def
    by (intro exI [of _ "[Await DbInit] @ (if createIndices_defined w then [Await DbCreateIndices] else [])"])
       simp
  show "filter starts_service (trace (snd (bootstrap e w s))) =
        filter starts_service (trace s) @
          [Await DbInitSessionStore, Await SocketsInit, Plain NotificationsStartJobs,
           Plain UserStartJobs, Await WebserverListen]"
    unfolding tr by (simp add: filter_starts_service_hook_calls)
qed

theorem services_start_in_source_order_witness:
  "fst (bootstrap (example_env (example_config 1)) example_world example_state) = None \<and>
   trace (snd (bootstrap (example_env (example_config 1)) example_world example_state)) =
     [Await DbInit, Await DbCreateIndices] @ reset_calls @
       [Await DbInitSessionStore, Await MetaDependenciesCheck, Await SocketsInit,
        Plain NotificationsStartJobs, Plain UserStartJobs, Await WebserverListen] \<and>
   length (trace example_state) \<le> 20 \<and>
   Suc 20 < length (trace (snd (bootstrap (example_env (example_config 1)) example_world example_state))) \<and>
   \<not> rejects example_world 20"
proof -
  have tr: "trace (snd (bootstrap (example_env (example_config 1)) example_world example_state)) =
     [Await DbInit, Await DbCreateIndices] @ reset_calls @
       [Await DbInitSessionStore, Await MetaDependenciesCheck, Await SocketsInit,
        Plain NotificationsStartJobs, Plain UserStartJobs, Await WebserverListen]"
    by (simp add: example_bootstrap_trace hook_calls_def example_world_facts service_calls_def)
  have len: "Suc 20 < length (trace (snd (bootstrap (example_env (example_config 1)) example_world example_state)))"
    unfolding tr by (simp add: reset_calls_def seed_calls_def stage_calls_def folders_def)
  have start: "length (trace example_state) \<le> 20"
    by (simp add: example_state_def)
  show ?thesis
    using services_start_in_source_order
            [of "example_env (example_config 1)" example_world example_state]
          example_bootstrap_succeeds tr len start
    by auto
qed

text \<open>
  In the complete run of the concrete installation the web listener is started last,
  after the realtime transport and the job processors, not second.
\<close>

theorem web_listener_is_started_last:
  "fst (bootstrap (example_env (example_config 1)) example_world example_state) = None \<and>
   filter starts_service
     (trace (snd (bootstrap (example_env (example_config 1)) example_world example_state))) =
     [Await DbInitSessionStore, Await SocketsInit, Plain NotificationsStartJobs,
      Plain UserStartJobs, Await WebserverListen] \<and>
   filter starts_service
     (trace (snd (bootstrap (example_env (example_config 1)) example_world example_state))) \<noteq>
     [Await DbInitSessionStore, Await WebserverListen, Await SocketsInit,
      Await NotificationsStartJobs, Await UserStartJobs]"
  by (simp add: example_bootstrap_succeeds example_bootstrap_trace filter_starts_service_hook_calls)

section \<open>Staging the upload directories\<close>

lemma upload_root_not_above:
  "prefix (upload_root w) q \<Longrightarrow> \<not> prefix q (cwd w @ [''test''])"
proof
  assume "prefix (upload_root w) q" "prefix q (cwd w @ [''test''])"
  then have "prefix (cwd w @ [''test'', ''uploads'']) (cwd w @ [''test''])"
    unfolding upload_root_def using prefix_order.trans by blast
  then show False by (auto simp: prefix_def)
qed

lemma staged_upload_dirs:
  "d \<in> set (upload_dirs w) \<Longrightarrow> fs (staged w s) d = Some Dir"
  by (simp add: staged_def)

lemma staged_below_root:
  assumes "prefix (upload_root w) q"
  shows "fs (staged w s) q \<noteq> None \<longleftrightarrow> q \<in> set (upload_dirs w)"
  using assms upload_root_not_above [OF assms] by (simp add: staged_def)

lemma staged_subdirectories_empty:
  assumes "d \<in> set (tl (upload_dirs w))" and "strict_prefix d q"
  shows "fs (staged w s) q = None"
proof -
  from assms(1) obtain x where d: "d = upload_root w @ [x]"
    by (auto simp: upload_dirs_def)
  with assms(2) obtain y ys where q: "q = upload_root w @ x # y # ys"
    by (cases "drop (length d) q") (auto simp: strict_prefix_def prefix_def)
  then have "prefix (upload_root w) q" by simp
  moreover have "q \<notin> set (upload_dirs w)"
    by (simp add: q upload_dirs_def)
  ultimately show ?thesis
    using staged_below_root by blast
qed

text \<open>
  C5. After \<^verbatim>\<open>stage()\<close> completes, every path of the upload directory set (the five
  literal folders, resolved in the working directory) is a directory, and nothing else
  exists at or below the upload root: the four subdirectories are empty and the root holds
  only them. This holds for every file system the run starts from, with or without the
  root and with or without stale files below it, because the root is removed whether it
  exists or not before the folders are created. Staging completes whenever no call fails
  and no file stands where a directory on the way to the root has to be.
\<close>

theorem stage_leaves_clean_upload_directories:
  "upload_dirs w = map (resolve_path (cwd w)) folders \<and>
   (never_rejects w \<and> way_clear w s \<longrightarrow> fst (stage w s) = None) \<and>
   (fst (stage w s) = None \<longrightarrow>
      (\<forall>d \<in> set (upload_dirs w). fs (snd (stage w s)) d = Some Dir) \<and>
      (\<forall>q. prefix (upload_root w) q \<longrightarrow>
           (fs (snd (stage w s)) q \<noteq> None \<longleftrightarrow> q \<in> set (upload_dirs w))) \<and>
      (\<forall>d \<in> set (tl (upload_dirs w)). \<forall>q. strict_prefix d q \<longrightarrow> fs (snd (stage w s)) q = None))"
proof (intro conjI impI)
  show "upload_dirs w = map (resolve_path (cwd w)) folders"
    by (rule upload_dirs_resolved)
next
  assume "never_rejects w \<and> way_clear w s"
  then show "fst (stage w s) = None"
    by (simp add: stage_succeeds)
next
  assume "fst (stage w s) = None"
  then have "stage w s = (None, snd (stage w s))"
    by (metis prod.collapse)
  from stage_ok [OF this] have s': "snd (stage w s) = staged w s" by blast
  show "\<forall>d \<in> set (upload_dirs w). fs (snd (stage w s)) d = Some Dir"
    unfolding s' using staged_upload_dirs by blast
  show "\<forall>q. prefix (upload_root w) q \<longrightarrow>
           (fs (snd (stage w s)) q \<noteq> None \<longleftrightarrow> q \<in> set (upload_dirs w))"
    unfolding s' using staged_below_root by blast
  show "\<forall>d \<in> set (tl (upload_dirs w)). \<forall>q. strict_prefix d q \<longrightarrow> fs (snd (stage w s)) q = None"
    unfolding s' using staged_subdirectories_empty by blast
qed

theorem stage_leaves_clean_upload_directories_witness:
  "never_rejects example_world \<and> way_clear example_world example_state \<and>
   fs example_state [''repo'', ''test'', ''uploads'', ''files'', ''stale.png''] = Some File \<and>
   fs example_state [''repo'', ''test'', ''uploads'', ''profile''] = None \<and>
   fst (stage example_world example_state) = None \<and>
   [''repo'', ''test'', ''uploads'', ''profile''] \<in> set (upload_dirs example_world) \<and>
   fs (snd (stage example_world example_state)) [''repo'', ''test'', ''uploads'', ''profile''] = Some Dir \<and>
   [''repo'', ''test'', ''uploads'', ''files''] \<in> set (tl (upload_dirs example_world)) \<and>
   strict_prefix [''repo'', ''test'', ''uploads'', ''files'']
     [''repo'', ''test'', ''uploads'', ''files'', ''stale.png''] \<and>
   prefix (upload_root example_world) [''repo'', ''test'', ''uploads'', ''files'', ''stale.png''] \<and>
   fs (snd (stage example_world example_state))
     [''repo'', ''test'', ''uploads'', ''files'', ''stale.png''] = None"
proof -
  have before: "fs example_state [''repo'', ''test'', ''uploads'', ''files'', ''stale.png''] = Some File"
    "fs example_state [''repo'', ''test'', ''uploads'', ''profile''] = None"
    by (simp_all add: example_state_def)
  have dirs: "[''repo'', ''test'', ''uploads'', ''profile''] \<in> set (upload_dirs example_world)"
    "[''repo'', ''test'', ''uploads'', ''files''] \<in> set (tl (upload_dirs example_world))"
    "prefix (upload_root example_world) [''repo'', ''test'', ''uploads'', ''files'', ''stale.png'']"
    by (simp_all add: upload_dirs_def upload_root_def example_world_facts)
  have strict: "strict_prefix [''repo'', ''test'', ''uploads'', ''files'']
     [''repo'', ''test'', ''uploads'', ''files'', ''stale.png'']"
    by (simp add: strict_prefix_def)
  show ?thesis
    using stage_leaves_clean_upload_directories [of example_world example_state]
      example_world_facts(1) example_way_clear before dirs strict
    by auto
qed

section \<open>The overrides for tests\<close>

text \<open>
  C6. Whatever the store, \<^verbatim>\<open>meta.config\<close> and \<^verbatim>\<open>defaults.json\<close> held before, after
  \<^verbatim>\<open>setupMockDefaults\<close> completes the three post delays and the language detection flag
  in \<^verbatim>\<open>meta.config\<close> are zero, and the persisted configuration has the password
  strength and the event loop check set to zero. The delays are assigned outright after
  the configuration is loaded, whether or not the store was emptied before; the password
  strength replaces the value of \<^verbatim>\<open>defaults.json\<close> outright and reaches the configuration
  because the store was emptied before the defaults are applied.
\<close>

theorem test_overrides_always_overwrite:
  "(fst (seed w s) = None \<longrightarrow>
      (\<forall>k \<in> {''postDelay'', ''initialPostDelay'', ''newbiePostDelay'', ''autoDetectLang''}.
          meta_config (snd (seed w s)) k = Some (Num 0))) \<and>
   (\<forall>k \<in> {''eventLoopCheckEnabled'', ''minimumPasswordStrength''}. seed_defaults loaded k = Some (Num 0)) \<and>
   (fst (setupMockDefaults w s) = None \<longrightarrow>
      (\<forall>k \<in> {''postDelay'', ''initialPostDelay'', ''newbiePostDelay'', ''autoDetectLang''}.
          meta_config (snd (setupMockDefaults w s)) k = Some (Num 0)) \<and>
      (\<forall>k \<in> {''eventLoopCheckEnabled'', ''minimumPasswordStrength''}.
          store_config (snd (setupMockDefaults w s)) k = Some (Num 0)))"
proof (intro conjI impI)
  assume "fst (seed w s) = None"
  then have "seed w s = (None, snd (seed w s))"
    by (metis prod.collapse)
  from seed_ok [OF this] obtain l where "snd (seed w s) = seeded w l s" by blast
  then show "\<forall>k \<in> {''postDelay'', ''initialPostDelay'', ''newbiePostDelay'', ''autoDetectLang''}.
          meta_config (snd (seed w s)) k = Some (Num 0)"
    by (simp add: seeded_fields)
next
  show "\<forall>k \<in> {''eventLoopCheckEnabled'', ''minimumPasswordStrength''}. seed_defaults loaded k = Some (Num 0)"
    by (simp add: seed_defaults_def)
next
  assume "fst (setupMockDefaults w s) = None"
  then have "setupMockDefaults w s = (None, snd (setupMockDefaults w s))"
    by (metis prod.collapse)
  from setupMockDefaults_ok [OF this] obtain l where
    s': "snd (setupMockDefaults w s) = staged w (seeded w l (emptied s))" by blast
  show "\<forall>k \<in> {''postDelay'', ''initialPostDelay'', ''newbiePostDelay'', ''autoDetectLang''}.
          meta_config (snd (setupMockDefaults w s)) k = Some (Num 0)"
    by (simp add: s' staged_fields seeded_fields)
  show "\<forall>k \<in> {''eventLoopCheckEnabled'', ''minimumPasswordStrength''}.
          store_config (snd (setupMockDefaults w s)) k = Some (Num 0)"
    by (simp add: s' staged_fields seeded_fields emptied_fields seed_defaults_def)
qed

theorem test_overrides_always_overwrite_witness:
  "meta_config example_state ''postDelay'' = Some (Num 10) \<and>
   store_config example_state ''minimumPasswordStrength'' = Some (Num 6) \<and>
   fst (seed example_world example_state) = None \<and>
   meta_config (snd (seed example_world example_state)) ''postDelay'' = Some (Num 0) \<and>
   seed_defaults [''minimumPasswordStrength'' \<mapsto> Num 1, ''postDelay'' \<mapsto> Num 10]
     ''minimumPasswordStrength'' = Some (Num 0) \<and>
   fst (setupMockDefaults example_world example_state) = None \<and>
   meta_config (snd (setupMockDefaults example_world example_state)) ''postDelay'' = Some (Num 0) \<and>
   store_config (snd (setupMockDefaults example_world example_state)) ''minimumPasswordStrength''
     = Some (Num 0)"
proof -
  have before: "meta_config example_state ''postDelay'' = Some (Num 10)"
    "store_config example_state ''minimumPasswordStrength'' = Some (Num 6)"
    by (simp_all add: example_state_def)
  have "seed example_world example_state =
          (None, seeded example_world [''minimumPasswordStrength'' \<mapsto> Num 1, ''postDelay'' \<mapsto> Num 10]
                   example_state)"
    using example_world_facts(1) example_state_defaults_file
    by (rule seed_succeeds) (simp add: example_world_def)
  then have seed_ok: "fst (seed example_world example_state) = None" by simp
  have reset_ok: "fst (setupMockDefaults example_world example_state) = None"
    by (simp add: example_reset_succeeds)
  show ?thesis
    using test_overrides_always_overwrite
            [of example_world example_state
                "[''minimumPasswordStrength'' \<mapsto> Num 1, ''postDelay'' \<mapsto> Num 10]"]
          before seed_ok reset_ok
    by simp
qed

section \<open>Seeding twice\<close>

lemma map_add_twice: "d ++ (d ++ c) = d ++ c" "(d ++ d) ++ c = d ++ c"
  by (rule ext, simp add: map_add_def split: option.splits)+

lemma way_clear_staged:
  assumes "way_clear w s"
  shows "way_clear w (staged w s)"
  unfolding way_clear_def
proof
  fix q assume q: "q \<in> set (prefixes (cwd w @ [''test'']))"
  then have "prefix q (cwd w @ [''test''])" by simp
  then have "fs (staged w s) q = (if q \<noteq> [] then Some Dir else fs s q)"
    using upload_root_not_above [of w q]
    by (auto simp: staged_def upload_dirs_def upload_root_def)
  moreover have "fs s q \<noteq> Some File"
    using assms q unfolding way_clear_def by blast
  ultimately show "fs (staged w s) q \<noteq> Some File" by auto
qed

lemma fold_add_member_present: "set ms \<subseteq> set ps \<Longrightarrow> fold add_member ms ps = ps"
  by (induction ms arbitrary: ps) (simp_all add: add_member_def)

lemma set_fold_add_member: "set (fold add_member ms ps) = set ps \<union> set ms"
  by (induction ms arbitrary: ps) (auto simp: add_member_def)

lemma fold_add_member_twice:
  "fold add_member ms (fold add_member ms ps) = fold add_member ms ps"
  by (rule fold_add_member_present) (simp add: set_fold_add_member)

lemma seeded_twice:
  "store_config (seeded w l (seeded w l s)) = store_config (seeded w l s)"
  "store_privileges (seeded w l (seeded w l s)) = store_privileges (seeded w l s)"
  "store_plugins (seeded w l (seeded w l s)) = store_plugins (seeded w l s)"
  "store_theme (seeded w l (seeded w l s)) = store_theme (seeded w l s)"
  "meta_config (seeded w l (seeded w l s)) = meta_config (seeded w l s)"
  by (simp_all add: seeded_fields map_add_twice fold_add_member_twice Un_assoc)

lemma reset_twice:
  fixes w l s
  defines "once \<equiv> staged w (seeded w l (emptied s))"
  defines "twice \<equiv> staged w (seeded w l (emptied once))"
  shows "store_config twice = store_config once"
    "store_privileges twice = store_privileges once"
    "store_plugins twice = store_plugins once"
    "store_theme twice = store_theme once"
    "meta_config twice = meta_config once"
  unfolding once_def twice_def
  by (simp_all add: staged_fields seeded_fields emptied_fields)

text \<open>
  C7. When seeding is run a second time right after it has run, the second run leaves the
  persisted configuration, the privileges granted to the groups, the list of active
  plugins, the theme and \<^verbatim>\<open>meta.config\<close> exactly as the first run left them. The same
  holds for the whole of \<^verbatim>\<open>setupMockDefaults\<close>, which empties the store before it seeds.
\<close>

theorem seeding_twice_is_seeding_once:
  "(fst (seed w s) = None \<and> fst (seed w (snd (seed w s))) = None \<longrightarrow>
      store_config (snd (seed w (snd (seed w s)))) = store_config (snd (seed w s)) \<and>
      store_privileges (snd (seed w (snd (seed w s)))) = store_privileges (snd (seed w s)) \<and>
      store_plugins (snd (seed w (snd (seed w s)))) = store_plugins (snd (seed w s)) \<and>
      store_theme (snd (seed w (snd (seed w s)))) = store_theme (snd (seed w s)) \<and>
      meta_config (snd (seed w (snd (seed w s)))) = meta_config (snd (seed w s))) \<and>
   (fst (setupMockDefaults w s) = None \<and>
    fst (setupMockDefaults w (snd (setupMockDefaults w s))) = None \<longrightarrow>
      store_config (snd (setupMockDefaults w (snd (setupMockDefaults w s))))
        = store_config (snd (setupMockDefaults w s)) \<and>
      store_privileges (snd (setupMockDefaults w (snd (setupMockDefaults w s))))
        = store_privileges (snd (setupMockDefaults w s)) \<and>
      store_plugins (snd (setupMockDefaults w (snd (setupMockDefaults w s))))
        = store_plugins (snd (setupMockDefaults w s)) \<and>
      store_theme (snd (setupMockDefaults w (snd (setupMockDefaults w s))))
        = store_theme (snd (setupMockDefaults w s)) \<and>
      meta_config (snd (setupMockDefaults w (snd (setupMockDefaults w s))))
        = meta_config (snd (setupMockDefaults w s)))"
proof (intro conjI impI)
  assume a: "fst (seed w s) = None \<and> fst (seed w (snd (seed w s))) = None"
  let ?s1 = "snd (seed w s)" and ?s2 = "snd (seed w (snd (seed w s)))"
  from a have 1: "seed w s = (None, ?s1)" and 2: "seed w ?s1 = (None, ?s2)"
    by (metis prod.collapse)+
  from seed_ok [OF 1] obtain p l where
    d1: "defaults_file s = Inr p" "require_defaults w p = Some l" and s1: "?s1 = seeded w l s"
    by blast
  from seed_ok [OF 2] obtain p' l' where
    d2: "defaults_file ?s1 = Inr p'" "require_defaults w p' = Some l'" and s2: "?s2 = seeded w l' ?s1"
    by blast
  have "defaults_file ?s1 = defaults_file s"
    by (rule defaults_file_cong) (simp add: s1 seeded_fields)
  with d1 d2 have "l' = l" by simp
  with s1 s2 have eq: "?s2 = seeded w l (seeded w l s)" by simp
  show "store_config ?s2 = store_config ?s1" "store_privileges ?s2 = store_privileges ?s1"
    "store_plugins ?s2 = store_plugins ?s1" "store_theme ?s2 = store_theme ?s1"
    "meta_config ?s2 = meta_config ?s1"
    unfolding eq unfolding s1 by (rule seeded_twice)+
next
  assume a: "fst (setupMockDefaults w s) = None \<and>
    fst (setupMockDefaults w (snd (setupMockDefaults w s))) = None"
  let ?s1 = "snd (setupMockDefaults w s)"
  let ?s2 = "snd (setupMockDefaults w (snd (setupMockDefaults w s)))"
  from a have 1: "setupMockDefaults w s = (None, ?s1)" and 2: "setupMockDefaults w ?s1 = (None, ?s2)"
    by (metis prod.collapse)+
  from setupMockDefaults_ok [OF 1] obtain p l where
    d1: "defaults_file s = Inr p" "require_defaults w p = Some l"
    and s1: "?s1 = staged w (seeded w l (emptied s))"
    by blast
  from setupMockDefaults_ok [OF 2] obtain p' l' where
    d2: "defaults_file ?s1 = Inr p'" "require_defaults w p' = Some l'"
    and s2: "?s2 = staged w (seeded w l' (emptied ?s1))"
    by blast
  have "defaults_file ?s1 = defaults_file s"
    by (rule defaults_file_cong) (simp add: s1 staged_fields seeded_fields emptied_fields)
  with d1 d2 have "l' = l" by simp
  with s1 s2 have eq: "?s2 = staged w (seeded w l (emptied (staged w (seeded w l (emptied s)))))"
    by simp
  show "store_config ?s2 = store_config ?s1" "store_privileges ?s2 = store_privileges ?s1"
    "store_plugins ?s2 = store_plugins ?s1" "store_theme ?s2 = store_theme ?s1"
    "meta_config ?s2 = meta_config ?s1"
    unfolding eq unfolding s1 by (rule reset_twice)+
qed

theorem seeding_twice_is_seeding_once_witness:
  "fst (seed example_world example_state) = None \<and>
   fst (seed example_world (snd (seed example_world example_state))) = None \<and>
   store_plugins (snd (seed example_world (snd (seed example_world example_state))))
     = store_plugins (snd (seed example_world example_state)) \<and>
   store_plugins (snd (seed example_world example_state))
     = [Str ''nodebb-plugin-left-over'', Str ''nodebb-plugin-dbsearch'',
        Str ''nodebb-widget-essentials'', Str ''nodebb-plugin-composer-default''] \<and>
   fst (setupMockDefaults example_world example_state) = None \<and>
   fst (setupMockDefaults example_world (snd (setupMockDefaults example_world example_state))) = None \<and>
   store_privileges (snd (setupMockDefaults example_world (snd (setupMockDefaults example_world example_state))))
     = store_privileges (snd (setupMockDefaults example_world example_state))"
proof -
  let ?l = "[''minimumPasswordStrength'' \<mapsto> Num 1, ''postDelay'' \<mapsto> Num 10]"
  have req: "require_defaults example_world ''/repo/install/data/defaults.json'' = Some ?l"
    by (simp add: example_world_def)
  have s1: "seed example_world example_state = (None, seeded example_world ?l example_state)"
    using example_world_facts(1) example_state_defaults_file req by (rule seed_succeeds)
  have "defaults_file (seeded example_world ?l example_state) = Inr ''/repo/install/data/defaults.json''"
    using defaults_file_cong [of "seeded example_world ?l example_state" example_state]
    by (simp add: seeded_fields example_state_defaults_file)
  then have s2: "seed example_world (seeded example_world ?l example_state)
      = (None, seeded example_world ?l (seeded example_world ?l example_state))"
    using example_world_facts(1) req seed_succeeds by blast
  let ?r1 = "staged example_world (seeded example_world ?l (emptied example_state))"
  have "defaults_file ?r1 = Inr ''/repo/install/data/defaults.json''"
    using defaults_file_cong [of ?r1 example_state]
    by (simp add: staged_fields seeded_fields emptied_fields example_state_defaults_file)
  moreover have "way_clear example_world ?r1"
    using example_way_clear
      way_clear_cong [of "seeded example_world ?l (emptied example_state)" example_state example_world]
    by (intro way_clear_staged) (simp add: seeded_fields emptied_fields)
  ultimately have r2: "fst (setupMockDefaults example_world ?r1) = None"
    using example_world_facts(1) req setupMockDefaults_succeeds by fastforce
  have plugins: "store_plugins (seeded example_world ?l example_state)
     = [Str ''nodebb-plugin-left-over'', Str ''nodebb-plugin-dbsearch'',
        Str ''nodebb-widget-essentials'', Str ''nodebb-plugin-composer-default'']"
    by (simp add: seeded_fields default_plugins_def add_member_def example_state_def nconf_get_def)
  show ?thesis
    using seeding_twice_is_seeding_once [of example_world example_state]
      s1 s2 r2 plugins example_reset_succeeds
    by simp
qed

section \<open>The test store target in the configuration\<close>

text \<open>
  Line 90 writes the key made of \<^verbatim>\<open>database.\<close> and the engine type, and nothing
  writes the key \<^verbatim>\<open>database\<close>, from which lines 74 and 82-84 read the production store
  target: both keys yield, after the module is loaded and after the bootstrap, what they
  held when line 90 had run.
\<close>

lemma written_key_and_production_key:
  assumes "load_module e = Inr n"
  shows "nconf_get n (engine_key e) = returned (configured e ''test_database'')"
    and "nconf_get n ''database'' = configured e ''database''"
    and "nconf_get (nconf (snd (bootstrap e w s))) (engine_key e)
           = returned (configured e ''test_database'')"
    and "nconf_get (nconf (snd (bootstrap e w s))) ''database'' = configured e ''database''"
proof -
  show "nconf_get n (engine_key e) = returned (configured e ''test_database'')"
    using assms by (rule loaded_engine_key)
  show "nconf_get n ''database'' = configured e ''database''"
    using assms by (rule loaded_database)
  show "nconf_get (nconf (snd (bootstrap e w s))) (engine_key e)
          = returned (configured e ''test_database'')"
    using bootstrap_keeps_key [OF assms engine_key_not_hook_key] loaded_engine_key [OF assms]
    by simp
  show "nconf_get (nconf (snd (bootstrap e w s))) ''database'' = configured e ''database''"
    using bootstrap_keeps_key [OF assms database_not_hook_key] loaded_database [OF assms]
    by simp
qed



section \<open>Staging and the configured upload path\<close>


lemma ignores_nconf_Nil: "ignores_nconf (run_steps [])"
  by (simp add: ignores_nconf_def)




lemma resolved_upload_path:
  assumes "resolve_config e = Inr m"
  shows "\<exists>b p. configured e ''base_dir'' = Str b \<and> configured e ''upload_path'' = Str p \<and>
               nconf_get m ''upload_path'' = Str (path_join_strings [b, p])"
proof -
  from assms obtain n0 u where n0: "load_config e = Inr n0"
    and d: "derive_settings u n0 = Inr m"
    by (auto simp: resolve_config_def split: sum.splits)
  have conf: "configured e k = nconf_get n0 k" for k
    using n0 by (simp add: configured_def)
  from d obtain n3 where n3: "derive_paths u n0 = Inr n3"
    and m: "m = derive_cluster_settings u (derive_url_settings u n3)"
    by (auto simp: derive_settings_def split: sum.splits)
  from n3 derive_paths_succeeds [of u n0] obtain b p where
    bp: "nconf_get n0 ''base_dir'' = Str b" "nconf_get n0 ''upload_path'' = Str p"
    by blast
  have keep: "nconf_get (nconf_set ''asset_base_url'' v (nconf_set ''relative_path'' v' n0)) k = nconf_get n0 k"
    if "k = ''base_dir'' \<or> k = ''upload_path''" for k v v'
    using that by (auto simp: nconf_get_set_other first_segment_def)
  have "path_join [Str b, Str p] = Inr (path_join_strings [b, p])"
    using path_join_string_args [of "[b, p]"] by simp
  with n3 have "nconf_get n3 ''upload_path'' = Str (path_join_strings [b, p])"
    by (auto simp: derive_paths_def Let_def keep bp nconf_get_set_same)
  moreover have "nconf_get (derive_url_settings u n3) ''upload_path'' = nconf_get n3 ''upload_path''"
    by (simp add: derive_url_settings_def Let_def nconf_get_set_other first_segment_def)
  moreover have "nconf_get m ''upload_path'' = nconf_get (derive_url_settings u n3) ''upload_path''"
    by (simp add: m derive_cluster_settings_def Let_def nconf_get_set_other first_segment_def)
  ultimately show ?thesis
    using bp by (simp add: conf)
qed

lemma loaded_upload_path:
  assumes "load_module e = Inr n"
  shows "\<exists>b p. configured e ''base_dir'' = Str b \<and> configured e ''upload_path'' = Str p \<and>
               nconf_get n ''upload_path'' = Str (path_join_strings [b, p])"
proof -
  from load_module_Inr [OF assms] obtain m where
    m: "resolve_config e = Inr m" "n = nconf_set (engine_key e) (configured e ''test_database'') m"
    by blast
  have "nconf_get n ''upload_path'' = nconf_get m ''upload_path''"
    by (simp add: m(2) nconf_get_set_other engine_key_def first_segment_def)
  with resolved_upload_path [OF m(1)] show ?thesis by simp
qed


lemma example_custom_configured:
  "configured (example_env ((''upload_path'', Str x) # example_config i)) ''test_database'' = example_target i"
  "configured (example_env ((''upload_path'', Str x) # example_config i)) ''database'' = example_target 0"
  "configured (example_env ((''upload_path'', Str x) # example_config i)) ''url'' = Str ''http://127.0.0.1:4567''"
  "configured (example_env ((''upload_path'', Str x) # example_config i)) ''base_dir'' = Str ''/repo''"
  "configured (example_env ((''upload_path'', Str x) # example_config i)) ''upload_path'' = Str x"
  by (simp_all add: evaluate_config example_target_def)

lemma example_custom_loads:
  "\<exists>n. load_module (example_env ((''upload_path'', Str x) # example_config 1)) = Inr n \<and>
       nconf_get n ''upload_path'' = Str (path_join_strings [''/repo'', x])"
proof -
  let ?e = "example_env ((''upload_path'', Str x) # example_config 1)"
  have "\<exists>m. resolve_config ?e = Inr m"
    unfolding resolve_config_succeeds example_custom_configured
    by (simp add: example_env_def example_url_parse_def)
  then obtain m where m: "resolve_config ?e = Inr m" by blast
  have "environment_guard (example_target 1) (example_target 0) = Inr ()"
    by (simp add: environment_guard_def same_field_def example_target_def)
  then obtain n where n: "load_module ?e = Inr n"
    using load_module_resolved [OF m]
    by (simp add: example_custom_configured truthy_defined example_target_def)
  from loaded_upload_path [OF n] show ?thesis
    using n by (simp add: example_custom_configured)
qed


lemmas evaluate_path =
  path_join_strings_def path_normalize_def normalize_segments_def norm_step_def resolve_path_def




text \<open>
  A respelling of the default, \<^verbatim>\<open>./test/uploads\<close>, is rewritten to the same path as the
  default and denotes the root that staging creates: it is not a custom upload path.
\<close>

lemma respelled_default_denotes_staged_root:
  "loaded_value (example_env ((''upload_path'', Str ''./test/uploads'') # example_config 1)) ''upload_path''
     = Some (Str ''/repo/test/uploads'') \<and>
   loaded_value (example_env (example_config 1)) ''upload_path'' = Some (Str ''/repo/test/uploads'') \<and>
   resolve_path (cwd example_world) ''/repo/test/uploads'' = upload_root example_world"
proof -
  obtain n where n: "load_module (example_env ((''upload_path'', Str ''./test/uploads'') # example_config 1)) = Inr n"
    "nconf_get n ''upload_path'' = Str (path_join_strings [''/repo'', ''./test/uploads''])"
    using example_custom_loads by blast
  obtain n' where n': "load_module (example_env (example_config 1)) = Inr n'"
    using example_loads by blast
  from loaded_upload_path [OF n'] have
    "nconf_get n' ''upload_path'' = Str (path_join_strings [''/repo'', ''test/uploads''])"
    by (simp add: example_configured)
  moreover have "path_join_strings [''/repo'', ''./test/uploads''] = ''/repo/test/uploads''"
    "path_join_strings [''/repo'', ''test/uploads''] = ''/repo/test/uploads''"
    by (simp_all add: evaluate_path)
  moreover have "resolve_path (cwd example_world) ''/repo/test/uploads'' = upload_root example_world"
    by (simp add: evaluate_path upload_root_def example_world_facts)
  ultimately show ?thesis
    using n n' by (simp add: loaded_value_def)
qed



end
